theory Spec2Isabelle
  imports Complex_Main "HOL-Library.AList" "HOL-Library.Char_ord" "HOL-Library.List_Lexorder"
begin

section \<open>Python values\<close>

text \<open>
  A Python \<open>str\<close> is a \<open>string\<close>, a Python \<open>int\<close> an \<open>int\<close>. The model covers ASCII text: \<open>lower\<close> maps the
  letters A to Z and leaves every other character as it is, and \<open>strip\<close> removes the
  ASCII whitespace that \<open>str.strip()\<close> removes (space, tab, line feed, vertical tab,
  form feed, carriage return and the four separators 0x1C to 0x1F) from both ends.
  A Python \<open>float\<close> is a \<open>real\<close>: sums, differences and quotients are exact.
\<close>

definition upper_letters :: string where
  "upper_letters = ''ABCDEFGHIJKLMNOPQRSTUVWXYZ''"

definition lower_letters :: string where
  "lower_letters = ''abcdefghijklmnopqrstuvwxyz''"

definition lower_char :: "char \<Rightarrow> char" where
  "lower_char c = (case map_of (zip upper_letters lower_letters) c of Some l \<Rightarrow> l | None \<Rightarrow> c)"

definition lower :: "string \<Rightarrow> string" where
  "lower s = map lower_char s"

definition isspace :: "char \<Rightarrow> bool" where
  "isspace c \<longleftrightarrow> c \<in> set [CHR '' '', CHR 0x09, CHR 0x0A, CHR 0x0B, CHR 0x0C, CHR 0x0D,
     CHR 0x1C, CHR 0x1D, CHR 0x1E, CHR 0x1F]"

definition lstrip :: "string \<Rightarrow> string" where
  "lstrip s = dropWhile isspace s"

definition rstrip :: "string \<Rightarrow> string" where
  "rstrip s = rev (dropWhile isspace (rev s))"

definition strip :: "string \<Rightarrow> string" where
  "strip s = rstrip (lstrip s)"

text \<open>
  \<open>round(x, ndigits)\<close>: the nearest multiple of \<open>10 ^ -ndigits\<close>, a tie going to the
  even one.
\<close>

definition round_half_even :: "real \<Rightarrow> int" where
  "round_half_even x =
     (let f = \<lfloor>x\<rfloor>; d = x - of_int f
      in if d < 1 / 2 then f else if 1 / 2 < d then f + 1 else if even f then f else f + 1)"

definition py_round :: "real \<Rightarrow> nat \<Rightarrow> real" where
  "py_round x ndigits = of_int (round_half_even (x * 10 ^ ndigits)) / 10 ^ ndigits"

text \<open>
  The exceptions the program can meet. \<open>ParserError\<close> stands for whatever
  \<open>pandas.read_csv\<close> raises on a file it cannot read.
\<close>

datatype exn = KeyError | AttributeError | ValueError | ParserError

section \<open>Data frames\<close>

text \<open>
  A data frame is its columns in order, each under its name. A column has one dtype:
  \<open>object\<close> (its cells are Python strings), \<open>float64\<close> or \<open>datetime64\<close> (day, month,
  year). Every field of an uploaded file is present; a missing field (NaN) is outside
  the model. The index is \<open>0, 1, ...\<close>: a row is named by its position.
\<close>

type_synonym date = "int \<times> int \<times> int"

datatype cell = Str string | Num real | Day date

datatype column = ObjectCol "string list" | FloatCol "real list" | DateCol "date list"

type_synonym frame = "(string \<times> column) list"

fun col_len :: "column \<Rightarrow> nat" where
  "col_len (ObjectCol xs) = length xs"
| "col_len (FloatCol xs) = length xs"
| "col_len (DateCol xs) = length xs"

fun cell_at :: "column \<Rightarrow> nat \<Rightarrow> cell" where
  "cell_at (ObjectCol xs) idx = Str (xs ! idx)"
| "cell_at (FloatCol xs) idx = Num (xs ! idx)"
| "cell_at (DateCol xs) idx = Day (xs ! idx)"

definition nrows :: "frame \<Rightarrow> nat" where
  "nrows df = (case df of [] \<Rightarrow> 0 | (name, c) # rest \<Rightarrow> col_len c)"

text \<open>The frames pandas can hold: every column has one cell for each row.\<close>

definition wf_frame :: "frame \<Rightarrow> bool" where
  "wf_frame df \<longleftrightarrow> list_all (\<lambda>(name, c). col_len c = nrows df) df"

text \<open>\<open>df[name]\<close>: the column, or \<open>KeyError\<close>.\<close>

definition getcol :: "frame \<Rightarrow> string \<Rightarrow> exn + column" where
  "getcol df name = (case map_of df name of None \<Rightarrow> Inl KeyError | Some c \<Rightarrow> Inr c)"

text \<open>\<open>df[name] = c\<close>: replaces the column in place, or adds it as the last one.\<close>

definition assign :: "frame \<Rightarrow> string \<Rightarrow> column \<Rightarrow> frame" where
  "assign df name c = AList.update name c df"

text \<open>
  \<open>df.at[idx, name] = v\<close> for a string \<open>v\<close> and an object column, the only use the
  program makes of it (on the \<open>Category\<close> column, which is written as an object column
  before any cell of it is set).
\<close>

definition set_at :: "frame \<Rightarrow> nat \<Rightarrow> string \<Rightarrow> string \<Rightarrow> frame" where
  "set_at df idx name v =
     (case map_of df name of
        Some (ObjectCol cs) \<Rightarrow> AList.update name (ObjectCol (cs[idx := v])) df
      | _ \<Rightarrow> df)"

text \<open>\<open>x.lower()\<close> for a cell \<open>x\<close>: only a \<open>str\<close> has the method.\<close>

fun str_lower :: "cell \<Rightarrow> exn + string" where
  "str_lower (Str s) = Inr (lower s)"
| "str_lower (Num x) = Inl AttributeError"
| "str_lower (Day d) = Inl AttributeError"

text \<open>\<open>df[mask]\<close> and \<open>df[column] == v\<close> for a string \<open>v\<close>.\<close>

definition keep :: "bool list \<Rightarrow> 'a list \<Rightarrow> 'a list" where
  "keep msk xs = map fst (filter snd (zip xs msk))"

fun keep_col :: "bool list \<Rightarrow> column \<Rightarrow> column" where
  "keep_col msk (ObjectCol xs) = ObjectCol (keep msk xs)"
| "keep_col msk (FloatCol xs) = FloatCol (keep msk xs)"
| "keep_col msk (DateCol xs) = DateCol (keep msk xs)"

definition select_rows :: "frame \<Rightarrow> bool list \<Rightarrow> frame" where
  "select_rows df msk = map (\<lambda>(name, c). (name, keep_col msk c)) df"

fun eq_mask :: "column \<Rightarrow> string \<Rightarrow> bool list" where
  "eq_mask (ObjectCol xs) v = map (\<lambda>x. x = v) xs"
| "eq_mask (FloatCol xs) v = map (\<lambda>x. False) xs"
| "eq_mask (DateCol xs) v = map (\<lambda>x. False) xs"

text \<open>\<open>df[[name, ...]]\<close>: the named columns in that order, \<open>KeyError\<close> when one is missing.\<close>

fun select_columns :: "frame \<Rightarrow> string list \<Rightarrow> exn + frame" where
  "select_columns df [] = Inr []"
| "select_columns df (name # names) =
     (case getcol df name of
        Inl e \<Rightarrow> Inl e
      | Inr c \<Rightarrow>
          (case select_columns df names of
             Inl e \<Rightarrow> Inl e
           | Inr rest \<Rightarrow> Inr ((name, c) # rest)))"

section \<open>The category store and the categorizer\<close>

text \<open>
  \<open>st.session_state.categories\<close> is a \<open>dict\<close> from category name to its keyword list; a
  \<open>dict\<close> iterates in insertion order, so it is an association list (with distinct
  keys). \<open>st.session_state.budgets\<close> maps category names to amounts.
\<close>

type_synonym store = "(string \<times> string list) list"

type_synonym budget_store = "(string \<times> real) list"

text \<open>
  \<open>categorize_transactions\<close> (main.py lines 42 to 55, backup.py lines 25 to 38, the same
  text). \<open>row_loop\<close> is the inner \<open>for idx, row in df.iterrows()\<close>, \<open>category_loop\<close> the
  outer \<open>for category, keywords in ....items()\<close>.
\<close>

fun row_loop :: "string list \<Rightarrow> string \<Rightarrow> nat list \<Rightarrow> frame \<Rightarrow> exn + frame" where
  "row_loop lowered_keywords category [] df = Inr df"
| "row_loop lowered_keywords category (idx # idxs) df =
     (case getcol df ''Details'' of
        Inl e \<Rightarrow> Inl e
      | Inr c \<Rightarrow>
          (case str_lower (cell_at c idx) of
             Inl e \<Rightarrow> Inl e
           | Inr details \<Rightarrow>
               row_loop lowered_keywords category idxs
                 (if details \<in> set lowered_keywords
                  then set_at df idx ''Category'' category else df)))"

fun category_loop :: "store \<Rightarrow> frame \<Rightarrow> exn + frame" where
  "category_loop [] df = Inr df"
| "category_loop ((category, keywords) # items) df =
     (if category = ''Uncategorized'' \<or> keywords = [] then category_loop items df
      else
        (case row_loop (map (\<lambda>keyword. strip (lower keyword)) keywords) category
                [0..<nrows df] df of
           Inl e \<Rightarrow> Inl e
         | Inr df' \<Rightarrow> category_loop items df'))"

definition categorize_transactions :: "store \<Rightarrow> frame \<Rightarrow> exn + frame" where
  "categorize_transactions cats df =
     category_loop cats
       (assign df ''Category'' (ObjectCol (replicate (nrows df) ''Uncategorized'')))"

section \<open>The transaction loader\<close>

text \<open>
  An uploaded file as \<open>pandas.read_csv\<close> meets it: one it cannot read, or the field texts
  of its records under each header name. \<open>read_csv\<close> gives a column the dtype
  \<open>float64\<close> when the file has a record and every field of the column is a number, and
  keeps the texts otherwise. The numbers of the model are the decimal numerals: an
  optional sign, digits, an optional point and digits, blanks around them allowed.
\<close>

datatype upload = Unreadable | Fields "(string \<times> string list) list"

definition digit_of :: "char \<Rightarrow> int option" where
  "digit_of c = map_of (zip ''0123456789'' [0..9]) c"

definition isdigit :: "char \<Rightarrow> bool" where
  "isdigit c \<longleftrightarrow> digit_of c \<noteq> None"

definition digits_val :: "string \<Rightarrow> int" where
  "digits_val s = foldl (\<lambda>n c. 10 * n + (case digit_of c of None \<Rightarrow> 0 | Some d \<Rightarrow> d)) 0 s"

definition parse_decimal :: "string \<Rightarrow> real option" where
  "parse_decimal s =
     (let (sign, body) =
            (case s of
               c # r \<Rightarrow> if c = CHR ''-'' then (- 1, r) else if c = CHR ''+'' then (1, r) else (1, s)
             | [] \<Rightarrow> (1, s));
          whole = takeWhile (\<lambda>c. c \<noteq> CHR ''.'') body;
          frac = drop 1 (dropWhile (\<lambda>c. c \<noteq> CHR ''.'') body)
      in if (whole = [] \<and> frac = []) \<or> \<not> list_all isdigit (whole @ frac) then None
         else Some (sign * (of_int (digits_val whole) + of_int (digits_val frac) / 10 ^ length frac)))"

text \<open>\<open>float(s)\<close> for a string \<open>s\<close>.\<close>

definition to_float :: "string \<Rightarrow> real option" where
  "to_float s = parse_decimal (strip s)"

definition infer_column :: "string list \<Rightarrow> column" where
  "infer_column fields =
     (case those (map to_float fields) of
        Some xs \<Rightarrow> if fields = [] then ObjectCol fields else FloatCol xs
      | None \<Rightarrow> ObjectCol fields)"

fun read_csv :: "upload \<Rightarrow> exn + frame" where
  "read_csv Unreadable = Inl ParserError"
| "read_csv (Fields cols) = Inr (map (\<lambda>(name, fields). (name, infer_column fields)) cols)"

text \<open>\<open>df.columns = [col.strip() for col in df.columns]\<close>\<close>

definition strip_columns :: "frame \<Rightarrow> frame" where
  "strip_columns df = map (\<lambda>(name, c). (strip name, c)) df"

text \<open>
  \<open>series.str.replace(",", "")\<close>: the \<open>.str\<close> accessor is there for string values only,
  and raises \<open>AttributeError\<close> on a column of another dtype. \<open>.astype(float)\<close> raises
  \<open>ValueError\<close> on a text that is no number.
\<close>

fun str_replace_comma :: "column \<Rightarrow> exn + string list" where
  "str_replace_comma (ObjectCol xs) = Inr (map (filter (\<lambda>c. c \<noteq> CHR '','')) xs)"
| "str_replace_comma (FloatCol xs) = Inl AttributeError"
| "str_replace_comma (DateCol xs) = Inl AttributeError"

definition astype_float :: "string list \<Rightarrow> exn + real list" where
  "astype_float xs =
     (case those (map to_float xs) of None \<Rightarrow> Inl ValueError | Some ys \<Rightarrow> Inr ys)"

text \<open>
  \<open>pd.to_datetime(series, format="%d %b %Y")\<close>: one or two day digits, blanks, a
  month's three-letter abbreviation in either case, blanks, four year digits; the day
  must exist in that month. Anything else raises \<open>ValueError\<close>.
\<close>

definition month_names :: "string list" where
  "month_names = [''jan'', ''feb'', ''mar'', ''apr'', ''may'', ''jun'',
     ''jul'', ''aug'', ''sep'', ''oct'', ''nov'', ''dec'']"

definition month_of :: "string \<Rightarrow> int option" where
  "month_of s = map_of (zip month_names [1..12]) (lower s)"

definition days_in_month :: "int \<Rightarrow> int \<Rightarrow> int" where
  "days_in_month y m =
     (if m = 2 then (if y mod 4 = 0 \<and> (y mod 100 \<noteq> 0 \<or> y mod 400 = 0) then 29 else 28)
      else if m \<in> set [4, 6, 9, 11] then 30 else 31)"

definition parse_date :: "string \<Rightarrow> date option" where
  "parse_date s =
     (let d = takeWhile isdigit s;
          r1 = dropWhile isdigit s;
          r2 = dropWhile isspace r1;
          b = take 3 r2;
          r3 = drop 3 r2;
          y = dropWhile isspace r3
      in if d = [] \<or> 2 < length d \<or> r2 = r1 \<or> y = r3 \<or> length y \<noteq> 4 \<or> \<not> list_all isdigit y
         then None
         else
           (case month_of b of
              None \<Rightarrow> None
            | Some m \<Rightarrow>
                if 1 \<le> digits_val d \<and> digits_val d \<le> days_in_month (digits_val y) m
                then Some (digits_val d, m, digits_val y) else None))"

fun to_datetime :: "column \<Rightarrow> exn + date list" where
  "to_datetime (ObjectCol xs) =
     (case those (map parse_date xs) of None \<Rightarrow> Inl ValueError | Some ds \<Rightarrow> Inr ds)"
| "to_datetime (FloatCol xs) = (if xs = [] then Inr [] else Inl ValueError)"
| "to_datetime (DateCol ds) = Inr ds"

text \<open>main.py line 62 and line 63, each a step that can raise.\<close>

definition coerce_amount :: "frame \<Rightarrow> exn + frame" where
  "coerce_amount df =
     (case getcol df ''Amount'' of
        Inl e \<Rightarrow> Inl e
      | Inr c \<Rightarrow>
          (case str_replace_comma c of
             Inl e \<Rightarrow> Inl e
           | Inr texts \<Rightarrow>
               (case astype_float texts of
                  Inl e \<Rightarrow> Inl e
                | Inr amounts \<Rightarrow> Inr (assign df ''Amount'' (FloatCol amounts)))))"

definition coerce_date :: "frame \<Rightarrow> exn + frame" where
  "coerce_date df =
     (case getcol df ''Date'' of
        Inl e \<Rightarrow> Inl e
      | Inr c \<Rightarrow>
          (case to_datetime c of
             Inl e \<Rightarrow> Inl e
           | Inr dates \<Rightarrow> Inr (assign df ''Date'' (DateCol dates))))"

text \<open>
  \<open>load_transactions\<close> (main.py lines 58 to 67, backup.py lines 40 to 50).
  \<open>load_frame\<close> is the body of its \<open>try\<close>; what the page shows is a list of elements, and
  \<open>st.error\<close> adds an \<open>Error\<close> to it.
\<close>

datatype element =
    Error exn
  | Success
  | Editor frame
  | Summary frame
  | Pie frame
  | Bar frame
  | Metric real
  | Table frame

definition load_frame :: "store \<Rightarrow> upload \<Rightarrow> exn + frame" where
  "load_frame cats file =
     (case read_csv file of
        Inl e \<Rightarrow> Inl e
      | Inr df \<Rightarrow>
          (case coerce_amount (strip_columns df) of
             Inl e \<Rightarrow> Inl e
           | Inr df1 \<Rightarrow>
               (case coerce_date df1 of
                  Inl e \<Rightarrow> Inl e
                | Inr df2 \<Rightarrow> categorize_transactions cats df2)))"

definition load_transactions :: "store \<Rightarrow> upload \<Rightarrow> element list \<times> frame option" where
  "load_transactions cats file =
     (case load_frame cats file of
        Inl e \<Rightarrow> ([Error e], None)
      | Inr df \<Rightarrow> ([], Some df))"

section \<open>The session state and the two documents\<close>

text \<open>
  \<open>st.session_state.categories\<close> and \<open>.budgets\<close>, and the two JSON documents
  \<open>categories.json\<close> and \<open>budgets.json\<close>: \<open>None\<close> while the file does not exist, else what
  \<open>json.load\<close> reads from it, which is what \<open>json.dump\<close> wrote.
\<close>

record state =
  categories :: store
  budgets :: budget_store
  category_file :: "store option"
  budget_file :: "budget_store option"

text \<open>A new session that finds no document (main.py lines 12 to 18).\<close>

definition init_state :: state where
  "init_state = \<lparr>categories = [(''Uncategorized'', [])], budgets = [],
     category_file = None, budget_file = None\<rparr>"

text \<open>\<open>d.setdefault(k, v)\<close> and \<open>d.get(k, v)\<close>\<close>

definition setdefault :: "('k \<times> 'v) list \<Rightarrow> 'k \<Rightarrow> 'v \<Rightarrow> ('k \<times> 'v) list" where
  "setdefault d k v = (case map_of d k of None \<Rightarrow> AList.update k v d | Some old \<Rightarrow> d)"

definition get_or :: "('k \<times> 'v) list \<Rightarrow> 'k \<Rightarrow> 'v \<Rightarrow> 'v" where
  "get_or d k v = (case map_of d k of None \<Rightarrow> v | Some x \<Rightarrow> x)"

text \<open>
  The module's top level, run again at every rerun of the script (main.py lines 20 to
  29): both documents are read if they exist, and every category gets a budget.
\<close>

definition startup :: "state \<Rightarrow> state" where
  "startup s =
     (let s1 = (case category_file s of None \<Rightarrow> s | Some c \<Rightarrow> s\<lparr>categories := c\<rparr>);
          s2 = (case budget_file s1 of None \<Rightarrow> s1 | Some b \<Rightarrow> s1\<lparr>budgets := b\<rparr>)
      in s2\<lparr>budgets := fold (\<lambda>cat b. setdefault b cat 0) (map fst (categories s2)) (budgets s2)\<rparr>)"

definition save_categories :: "state \<Rightarrow> state" where
  "save_categories s = s\<lparr>category_file := Some (categories s)\<rparr>"

definition save_budgets :: "state \<Rightarrow> state" where
  "save_budgets s = s\<lparr>budget_file := Some (budgets s)\<rparr>"

text \<open>
  \<open>add_keyword_to_category\<close> (main.py lines 70 to 76, backup.py lines 52 to 58, the same
  text). Python tests \<open>keyword\<close> first and looks \<open>category\<close> up only when the keyword is
  not empty; the lookup raises \<open>KeyError\<close> for a category the store does not have.
\<close>

definition add_keyword_to_category :: "string \<Rightarrow> string \<Rightarrow> state \<Rightarrow> state \<times> (exn + bool)" where
  "add_keyword_to_category category keyword0 s =
     (let keyword = strip keyword0
      in if keyword \<noteq> [] then
           (case map_of (categories s) category of
              None \<Rightarrow> (s, Inl KeyError)
            | Some keywords \<Rightarrow>
                if keyword \<notin> set keywords
                then (save_categories
                        (s\<lparr>categories := AList.update category (keywords @ [keyword]) (categories s)\<rparr>),
                      Inr True)
                else (s, Inr False))
         else (s, Inr False))"

text \<open>
  The Add Category button once pressed (main.py lines 99 to 106): the second component
  says whether \<open>st.rerun()\<close> was reached. backup.py (lines 79 to 83) has no budget store.
\<close>

definition add_category :: "string \<Rightarrow> state \<Rightarrow> state \<times> bool" where
  "add_category new_category s =
     (if new_category \<noteq> [] then
        (if new_category \<notin> set (map fst (categories s))
         then (save_budgets (save_categories
                 (s\<lparr>categories := AList.update new_category [] (categories s),
                    budgets := setdefault (budgets s) new_category 0\<rparr>)), True)
         else (s, False))
      else (s, False))"

definition add_category_backup :: "string \<Rightarrow> state \<Rightarrow> state \<times> bool" where
  "add_category_backup new_category s =
     (if new_category \<noteq> [] then
        (if new_category \<notin> set (map fst (categories s))
         then (save_categories (s\<lparr>categories := AList.update new_category [] (categories s)\<rparr>),
               True)
         else (s, False))
      else (s, False))"

text \<open>
  The budget inputs (main.py lines 112 to 121): every category's budget becomes what
  its \<open>st.number_input\<close> returns, in memory only. The widget is an input of the model: it
  is given the category and the current amount.
\<close>

definition set_budget :: "string \<Rightarrow> real \<Rightarrow> state \<Rightarrow> state" where
  "set_budget cat amount s = s\<lparr>budgets := AList.update cat amount (budgets s)\<rparr>"

definition budget_inputs :: "(string \<Rightarrow> real \<Rightarrow> real) \<Rightarrow> state \<Rightarrow> state" where
  "budget_inputs number_input s =
     fold (\<lambda>cat s. set_budget cat (number_input cat (get_or (budgets s) cat 0)) s)
       (map fst (categories s)) s"

text \<open>
  The Apply Changes loop (main.py lines 146 to 153, backup.py lines 106 to 113). A row
  of the edited grid is its \<open>Details\<close> cell and the category chosen in its selectbox;
  \<open>idx\<close> is the row's position. \<open>keyword.strip()\<close> in \<open>add_keyword_to_category\<close> raises
  \<open>AttributeError\<close> for a cell that is no string. An exception ends the loop with what
  was stored before it.
\<close>

fun apply_changes ::
  "(cell \<times> string) list \<Rightarrow> nat \<Rightarrow> frame \<Rightarrow> state \<Rightarrow> frame \<times> state \<times> exn option" where
  "apply_changes [] idx debits_df s = (debits_df, s, None)"
| "apply_changes ((details, new_category_val) # rows) idx debits_df s =
     (case getcol debits_df ''Category'' of
        Inl e \<Rightarrow> (debits_df, s, Some e)
      | Inr c \<Rightarrow>
          if col_len c \<le> idx then (debits_df, s, Some KeyError)
          else if Str new_category_val = cell_at c idx
          then apply_changes rows (Suc idx) debits_df s
          else
            (let debits_df' = set_at debits_df idx ''Category'' new_category_val
             in case details of
                  Str keyword \<Rightarrow>
                    (case add_keyword_to_category new_category_val keyword s of
                       (s', Inl e) \<Rightarrow> (debits_df', s', Some e)
                     | (s', Inr learned) \<Rightarrow> apply_changes rows (Suc idx) debits_df' s')
                | Num x \<Rightarrow> (debits_df', s, Some AttributeError)
                | Day d \<Rightarrow> (debits_df', s, Some AttributeError)))"

section \<open>The aggregator\<close>

text \<open>
  \<open>groupby("Category")["Amount"].sum().reset_index()\<close>: one row for each category that
  occurs, in ascending order of the names, with the sum of its amounts. Then
  \<open>sort_values(by="Amount", ascending=False)\<close> (main.py lines 156 and 157, backup.py
  lines 116 and 117); pandas does not fix the order of rows with equal amounts, and
  the model keeps them in the order they had. The frame that is
  grouped comes from \<open>load_transactions\<close>: its \<open>Category\<close> column holds strings and its
  \<open>Amount\<close> column numbers. A frame of another shape is refused, with \<open>ValueError\<close>
  standing for whatever pandas would do with it.
\<close>

definition groups :: "string list \<Rightarrow> real list \<Rightarrow> (string \<times> real list) list" where
  "groups cs amounts =
     map (\<lambda>k. (k, map snd (filter (\<lambda>(c, a). c = k) (zip cs amounts)))) (sort (remdups cs))"

definition group_sum :: "string list \<Rightarrow> real list \<Rightarrow> (string \<times> real) list" where
  "group_sum cs amounts = map (\<lambda>(k, xs). (k, sum_list xs)) (groups cs amounts)"

definition sort_descending :: "(string \<times> real) list \<Rightarrow> (string \<times> real) list" where
  "sort_descending rows = sort_key (\<lambda>(k, a). - a) rows"

definition grouped_totals :: "frame \<Rightarrow> exn + (string \<times> real) list" where
  "grouped_totals debits_df =
     (case getcol debits_df ''Category'' of
        Inl e \<Rightarrow> Inl e
      | Inr (ObjectCol cs) \<Rightarrow>
          (case getcol debits_df ''Amount'' of
             Inl e \<Rightarrow> Inl e
           | Inr (FloatCol amounts) \<Rightarrow> Inr (sort_descending (group_sum cs amounts))
           | Inr other \<Rightarrow> Inl ValueError)
      | Inr other \<Rightarrow> Inl ValueError)"

text \<open>
  The budget columns (main.py lines 160 to 167). \<open>percent_used\<close> is the lambda of lines
  164 to 167.
\<close>

definition percent_used :: "real \<Rightarrow> real \<Rightarrow> real" where
  "percent_used amount budget = (if budget > 0 then py_round ((amount / budget) * 100) 1 else 0)"

definition category_totals :: "budget_store \<Rightarrow> frame \<Rightarrow> exn + frame" where
  "category_totals bs debits_df =
     (case grouped_totals debits_df of
        Inl e \<Rightarrow> Inl e
      | Inr rows \<Rightarrow>
          (let amount = map snd rows;
               budget = map (\<lambda>(c, a). get_or bs c 0) rows
           in Inr [(''Category'', ObjectCol (map fst rows)),
                   (''Amount'', FloatCol amount),
                   (''Budget'', FloatCol budget),
                   (''Remaining'', FloatCol (map2 (\<lambda>b a. b - a) budget amount)),
                   (''% Used'', FloatCol (map2 percent_used amount budget))]))"

section \<open>The page\<close>

text \<open>
  What the user does in one run of the script: the file in the uploader, the text and
  the button of Add Category, what each budget input returns, the Save Budgets button,
  the rows the data editor returns for the frame it shows, and the Apply Changes button.
\<close>

record ui =
  uploaded_file :: "upload option"
  new_category :: string
  add_button :: bool
  number_input :: "string \<Rightarrow> real \<Rightarrow> real"
  save_budgets_button :: bool
  data_editor :: "frame \<Rightarrow> (cell \<times> string) list"
  apply_button :: bool

text \<open>How a run ends: at the end of the script, at \<open>st.rerun()\<close>, or with an exception
  that nothing catches.\<close>

datatype outcome = Done | Rerun | Raised exn

text \<open>The Payments tab (main.py lines 197 to 201).\<close>

definition payments_tab :: "frame \<Rightarrow> element list \<times> outcome" where
  "payments_tab credits_df =
     (case getcol credits_df ''Amount'' of
        Inr (FloatCol amounts) \<Rightarrow> ([Metric (sum_list amounts), Table credits_df], Done)
      | Inr other \<Rightarrow> ([], Raised ValueError)
      | Inl e \<Rightarrow> ([], Raised e))"

text \<open>The Expenses tab (main.py lines 94 to 195).\<close>

definition expenses_tab :: "ui \<Rightarrow> frame \<Rightarrow> state \<Rightarrow> state \<times> element list \<times> outcome" where
  "expenses_tab u debits_df s =
     (let (s1, rerun) = (if add_button u then add_category (new_category u) s else (s, False))
      in if rerun then (s1, [], Rerun)
         else
           (let s2 = budget_inputs (number_input u) s1;
                (s3, shown1) =
                  (if save_budgets_button u then (save_budgets s2, [Success]) else (s2, []))
            in case select_columns debits_df [''Date'', ''Details'', ''Amount'', ''Category''] of
                 Inl e \<Rightarrow> (s3, shown1, Raised e)
               | Inr grid \<Rightarrow>
                   (let shown2 = shown1 @ [Editor grid];
                        (debits_df', s4, raised) =
                          (if apply_button u then apply_changes (data_editor u grid) 0 debits_df s3
                           else (debits_df, s3, None))
                    in case raised of
                         Some e \<Rightarrow> (s4, shown2, Raised e)
                       | None \<Rightarrow>
                           (case category_totals (budgets s4) debits_df' of
                              Inl e \<Rightarrow> (s4, shown2, Raised e)
                            | Inr totals \<Rightarrow>
                                (s4, shown2 @ [Summary totals, Pie totals, Bar totals], Done)))))"

text \<open>\<open>main\<close> (main.py lines 79 to 201), and a run of the whole script.\<close>

definition main :: "ui \<Rightarrow> state \<Rightarrow> state \<times> element list \<times> outcome" where
  "main u s =
     (case uploaded_file u of
        None \<Rightarrow> (s, [], Done)
      | Some file \<Rightarrow>
          (case load_transactions (categories s) file of
             (shown, None) \<Rightarrow> (s, shown, Done)
           | (shown, Some df) \<Rightarrow>
               (case getcol df ''Debit/Credit'' of
                  Inl e \<Rightarrow> (s, shown, Raised e)
                | Inr flag \<Rightarrow>
                    (let debits_df = select_rows df (eq_mask flag ''Debit'');
                         credits_df = select_rows df (eq_mask flag ''Credit'')
                     in case expenses_tab u debits_df s of
                          (s', shown1, Done) \<Rightarrow>
                            (case payments_tab credits_df of
                               (shown2, r) \<Rightarrow> (s', shown @ shown1 @ shown2, r))
                        | (s', shown1, r) \<Rightarrow> (s', shown @ shown1, r)))))"

definition script :: "ui \<Rightarrow> state \<Rightarrow> state \<times> element list \<times> outcome" where
  "script u s = main u (startup s)"

section \<open>Example inputs\<close>

text \<open>
  A user who does nothing, a one-row statement whose amount has a thousands separator
  (under a header with a blank before \<open>Amount\<close>), the run that adds the category
  \<open>Food\<close>, and the run that moves the row to a category in the editor and applies it.
\<close>

definition quiet_ui :: ui where
  "quiet_ui = \<lparr>uploaded_file = None, new_category = [], add_button = False,
     number_input = (\<lambda>cat amount. amount), save_budgets_button = False,
     data_editor = (\<lambda>grid. []), apply_button = False\<rparr>"

definition coffee_file :: upload where
  "coffee_file = Fields [(''Date'', [''05 Mar 2024'']), (''Details'', [''Coffee Shop'']),
     ('' Amount'', [''1,250.00'']), (''Debit/Credit'', [''Debit''])]"

definition add_food_ui :: ui where
  "add_food_ui = quiet_ui\<lparr>uploaded_file := Some coffee_file, new_category := ''Food'',
     add_button := True\<rparr>"

definition move_to_ui :: "string \<Rightarrow> ui" where
  "move_to_ui category = quiet_ui\<lparr>uploaded_file := Some coffee_file,
     data_editor := (\<lambda>grid. [(Str ''Coffee Shop'', category)]), apply_button := True\<rparr>"

text \<open>A statement whose dates are not in the format the loader asks for.\<close>

definition bad_date_file :: upload where
  "bad_date_file = Fields [(''Date'', [''2024-03-05'']), (''Details'', [''Coffee Shop'']),
     (''Amount'', [''1,250.00'']), (''Debit/Credit'', [''Debit''])]"

text \<open>
  The three rows of the specification's end-to-end example, the same rows with the
  salary written with a thousands separator, and the store and budgets of the example.
\<close>

definition example_file :: upload where
  "example_file = Fields
     [(''Date'', [''01 Jan 2024'', ''02 Jan 2024'', ''03 Jan 2024'']),
      (''Details'', [''Coffee Shop'', ''Coffee Shop'', ''Salary'']),
      (''Amount'', [''4.50'', ''3.20'', ''2000.00'']),
      (''Debit/Credit'', [''Debit'', ''Debit'', ''Credit''])]"

definition example_file_separator :: upload where
  "example_file_separator = Fields
     [(''Date'', [''01 Jan 2024'', ''02 Jan 2024'', ''03 Jan 2024'']),
      (''Details'', [''Coffee Shop'', ''Coffee Shop'', ''Salary'']),
      (''Amount'', [''4.50'', ''3.20'', ''2,000.00'']),
      (''Debit/Credit'', [''Debit'', ''Debit'', ''Credit''])]"

definition example_state :: state where
  "example_state = \<lparr>categories = [(''Uncategorized'', []), (''Food'', [''coffee shop''])],
     budgets = [(''Uncategorized'', 0), (''Food'', 10)],
     category_file = Some [(''Uncategorized'', []), (''Food'', [''coffee shop''])],
     budget_file = Some [(''Uncategorized'', 0), (''Food'', 10)]\<rparr>"

text \<open>
  A store in which two categories hold the keyword of one detail text, a frame with
  such a row, and the frame the categorizer makes of it; three debit rows in two
  categories.
\<close>

definition uber_store :: store where
  "uber_store = [(''Uncategorized'', []), (''Food'', [''uber'']), (''Transport'', ['' Uber ''])]"

definition uber_frame :: frame where
  "uber_frame = [(''Details'', ObjectCol [''UBER'', ''Salary'']), (''Amount'', FloatCol [12, 2000])]"

definition uber_categorized :: frame where
  "uber_categorized = [(''Details'', ObjectCol [''UBER'', ''Salary'']),
     (''Amount'', FloatCol [12, 2000]),
     (''Category'', ObjectCol [''Transport'', ''Uncategorized''])]"

definition debits_example :: frame where
  "debits_example = [(''Details'', ObjectCol [''Coffee Shop'', ''Taxi'', ''Coffee Shop'']),
     (''Amount'', FloatCol [4.5, 12, 3.2]),
     (''Category'', ObjectCol [''Food'', ''Transport'', ''Food''])]"

section \<open>Notions the properties are stated with\<close>

text \<open>
  The categories whose keywords a detail text matches, in the store's order: the
  categories other than \<open>Uncategorized\<close> one of whose lowered, trimmed keywords is the
  lowered text.
\<close>

definition matching :: "store \<Rightarrow> string \<Rightarrow> store" where
  "matching cats details =
     filter (\<lambda>(category, keywords). category \<noteq> ''Uncategorized'' \<and>
        lower details \<in> set (map (\<lambda>keyword. strip (lower keyword)) keywords)) cats"

text \<open>
  What one pass of \<open>row_loop\<close> leaves in the \<open>Category\<close> column \<open>cs\<close>, and the category a
  detail text ends with after all passes when it starts with \<open>cur\<close>.
\<close>

fun relabel :: "string list \<Rightarrow> string \<Rightarrow> string list \<Rightarrow> nat list \<Rightarrow> string list \<Rightarrow> string list" where
  "relabel l c ds [] cs = cs"
| "relabel l c ds (i # idxs) cs =
     relabel l c ds idxs (if lower (ds ! i) \<in> set l then cs[i := c] else cs)"

fun last_match :: "store \<Rightarrow> string \<Rightarrow> string \<Rightarrow> string" where
  "last_match [] d cur = cur"
| "last_match ((c, kws) # items) d cur =
     last_match items d
       (if c \<noteq> ''Uncategorized'' \<and> lower d \<in> set (map (\<lambda>k. strip (lower k)) kws)
        then c else cur)"

text \<open>
  \<open>Uncategorized\<close> has no keyword, in the session and in the category document if
  there is one.
\<close>

definition uncategorized_empty :: "state \<Rightarrow> bool" where
  "uncategorized_empty s \<longleftrightarrow> map_of (categories s) ''Uncategorized'' = Some [] \<and>
     (case category_file s of None \<Rightarrow> True | Some c \<Rightarrow> map_of c ''Uncategorized'' = Some [])"

text \<open>
  A user who never moves a row to \<open>Uncategorized\<close>: a row that the editor returns with
  that category had it in the grid the editor was given. The states the program
  reaches from a new session with such users: each step is one run of the script.
\<close>

definition no_demotion :: "ui \<Rightarrow> bool" where
  "no_demotion u \<longleftrightarrow>
     (\<forall>grid i. i < length (data_editor u grid) \<longrightarrow>
        snd (data_editor u grid ! i) = ''Uncategorized'' \<longrightarrow>
        (\<exists>cs. getcol grid ''Category'' = Inr (ObjectCol cs) \<and> i < length cs \<and>
           cs ! i = ''Uncategorized''))"

inductive reachable :: "state \<Rightarrow> bool" where
  start: "reachable init_state"
| run: "reachable s \<Longrightarrow> no_demotion u \<Longrightarrow> reachable (fst (script u s))"

section \<open>Properties of the strings\<close>

lemma lstrip_idem: "lstrip (lstrip s) = lstrip s"
  by (simp add: lstrip_def)

lemma rstrip_idem: "rstrip (rstrip s) = rstrip s"
  by (simp add: rstrip_def)

lemma lstrip_rstrip_lstrip: "lstrip (rstrip (lstrip s)) = rstrip (lstrip s)"
proof (cases "lstrip s = []")
  case True
  then have "rstrip (lstrip s) = []" by (simp add: rstrip_def)
  then show ?thesis by (simp add: lstrip_def)
next
  case False
  define t where "t = lstrip s"
  have t: "t \<noteq> []" "\<not> isspace (hd t)"
    using False by (auto simp: t_def lstrip_def hd_dropWhile)
  have mem: "hd t \<in> set (rev t)" using t by simp
  have ne: "dropWhile isspace (rev t) \<noteq> []"
    using mem t(2) by (auto simp: dropWhile_eq_Nil_conv)
  have "last (dropWhile isspace (rev t)) = last (rev t)"
    using mem t(2) by (rule dropWhile_last)
  with ne t
  have "hd (rstrip t) = hd t" "rstrip t \<noteq> []"
    by (simp_all add: rstrip_def hd_rev last_rev)
  then have "lstrip (rstrip t) = rstrip t"
    using t by (simp add: lstrip_def dropWhile_eq_self_iff)
  then show ?thesis by (simp add: t_def)
qed

lemma strip_idem: "strip (strip s) = strip s"
  by (simp add: strip_def lstrip_rstrip_lstrip rstrip_idem)

lemma strip_lowered:
  "x \<in> set (map (\<lambda>k. strip (lower k)) kws) \<Longrightarrow> strip x = x"
  by (auto simp: strip_idem)

section \<open>Properties of frames\<close>

lemma all_len_update:
  "list_all (\<lambda>(name, c). col_len c = n) df \<Longrightarrow> col_len c' = n \<Longrightarrow>
   list_all (\<lambda>(name, c). col_len c = n) (AList.update k c' df)"
  by (induction df) auto

lemma nrows_all_len:
  "df \<noteq> [] \<Longrightarrow> list_all (\<lambda>(name, c). col_len c = n) df \<Longrightarrow> nrows df = n"
  by (cases df) (auto simp: nrows_def)

lemma update_not_Nil: "AList.update k v al \<noteq> []"
  by (cases al) auto

lemma nrows_update:
  assumes "wf_frame df" "col_len c' = nrows df"
  shows "nrows (AList.update k c' df) = nrows df"
proof -
  have "list_all (\<lambda>(name, c). col_len c = nrows df) (AList.update k c' df)"
    using assms by (simp add: wf_frame_def all_len_update)
  then show ?thesis by (rule nrows_all_len [OF update_not_Nil])
qed

lemma wf_update:
  assumes "wf_frame df" "col_len c' = nrows df"
  shows "wf_frame (AList.update k c' df)"
  using assms by (simp add: wf_frame_def [of "AList.update k c' df"] nrows_update)
    (simp add: wf_frame_def all_len_update)

lemma wf_col_len:
  "wf_frame df \<Longrightarrow> map_of df k = Some c \<Longrightarrow> col_len c = nrows df"
  by (auto simp: wf_frame_def list_all_iff dest!: map_of_SomeD)

lemma nrows_assign:
  "wf_frame df \<Longrightarrow> col_len c = nrows df \<Longrightarrow> nrows (assign df k c) = nrows df"
  by (simp add: assign_def nrows_update)

lemma wf_assign:
  "wf_frame df \<Longrightarrow> col_len c = nrows df \<Longrightarrow> wf_frame (assign df k c)"
  by (simp add: assign_def wf_update)

lemma update_fresh: "k \<notin> set (map fst al) \<Longrightarrow> AList.update k v al = al @ [(k, v)]"
  by (induction al) auto

lemma update_keys_present: "k \<in> set (map fst al) \<Longrightarrow> map fst (AList.update k v al) = map fst al"
  by (simp add: update_keys)

lemma select_columns_getcol:
  "select_columns df names = Inr grid \<Longrightarrow> name \<in> set names \<Longrightarrow> getcol grid name = getcol df name"
proof (induction names arbitrary: grid)
  case Nil
  then show ?case by simp
next
  case (Cons n names)
  from Cons.prems(1) obtain c rest where c: "getcol df n = Inr c"
    and rest: "select_columns df names = Inr rest" and grid: "grid = (n, c) # rest"
    by (auto split: sum.splits)
  show ?case
  proof (cases "name = n")
    case True
    then show ?thesis using c by (simp add: grid getcol_def)
  next
    case False
    then have "name \<in> set names" using Cons.prems(2) by simp
    from Cons.IH [OF rest this] False show ?thesis by (simp add: grid getcol_def)
  qed
qed

section \<open>The categorizer\<close>

text \<open>
  The two loops in closed form: on a frame whose \<open>Details\<close> column holds strings the
  categorizer writes, for each row, the last category of the store that matches; on
  any other frame it can only return when no row is looked at.
\<close>

lemma length_relabel: "length (relabel l c ds idxs cs) = length cs"
  by (induction idxs arbitrary: cs) auto

lemma nth_relabel:
  "i < length cs \<Longrightarrow> relabel l c ds idxs cs ! i = (if i \<in> set idxs \<and> lower (ds ! i) \<in> set l then c else cs ! i)"
proof (induction idxs arbitrary: cs)
  case Nil
  then show ?case by simp
next
  case (Cons a idxs)
  show ?case
  proof (cases "lower (ds ! a) \<in> set l")
    case True
    then show ?thesis using Cons.IH [of "cs[a := c]"] Cons.prems
      by (cases "a = i") auto
  next
    case False
    then show ?thesis using Cons.IH [of cs] Cons.prems by auto
  qed
qed

lemma relabel_upt:
  assumes "length ds = n" "length cs = n"
  shows "relabel l c ds [0..<n] cs = map2 (\<lambda>d c0. if lower d \<in> set l then c else c0) ds cs"
  using assms by (intro nth_equalityI) (auto simp: length_relabel nth_relabel)

lemma row_loop_object:
  "map_of df ''Details'' = Some (ObjectCol ds) \<Longrightarrow> map_of df ''Category'' = Some (ObjectCol cs) \<Longrightarrow>
   row_loop l c idxs df = Inr (AList.update ''Category'' (ObjectCol (relabel l c ds idxs cs)) df)"
proof (induction idxs arbitrary: df cs)
  case Nil
  then show ?case by (simp add: update_triv)
next
  case (Cons i idxs)
  then show ?case
    by (auto simp: getcol_def set_at_def update_conv')
qed

lemma category_loop_object:
  "map_of df ''Details'' = Some (ObjectCol ds) \<Longrightarrow> map_of df ''Category'' = Some (ObjectCol cs) \<Longrightarrow>
   wf_frame df \<Longrightarrow>
   category_loop cats df =
     Inr (AList.update ''Category'' (ObjectCol (map2 (last_match cats) ds cs)) df)"
proof (induction cats arbitrary: df cs)
  case Nil
  have len: "length ds = length cs"
    using wf_col_len [OF Nil(3) Nil(1)] wf_col_len [OF Nil(3) Nil(2)] by simp
  have "map2 (last_match []) ds cs = cs"
    using len by (intro nth_equalityI) auto
  then show ?case using Nil by (simp add: update_triv)
next
  case (Cons a cats)
  obtain c kws where a: "a = (c, kws)" by (cases a)
  have len: "length ds = nrows df" "length cs = nrows df"
    using wf_col_len [OF Cons.prems(3) Cons.prems(1)] wf_col_len [OF Cons.prems(3) Cons.prems(2)]
    by simp_all
  show ?case
  proof (cases "c = ''Uncategorized'' \<or> kws = []")
    case True
    then have eq: "last_match ((c, kws) # cats) = last_match cats"
      by (intro ext) auto
    have "category_loop (a # cats) df = category_loop cats df"
      using True by (simp add: a)
    then show ?thesis using Cons.IH [OF Cons.prems] by (simp only: a eq)
  next
    case False
    define l where "l = map (\<lambda>k. strip (lower k)) kws"
    define cs' where "cs' = map2 (\<lambda>d c0. if lower d \<in> set l then c else c0) ds cs"
    define df' where "df' = AList.update ''Category'' (ObjectCol cs') df"
    have row: "row_loop l c [0..<nrows df] df = Inr df'"
      using row_loop_object [OF Cons.prems(1,2)] len
      by (simp add: relabel_upt df'_def cs'_def)
    have 1: "map_of df' ''Details'' = Some (ObjectCol ds)"
      using Cons.prems(1) by (simp add: df'_def update_conv')
    have 2: "map_of df' ''Category'' = Some (ObjectCol cs')"
      by (simp add: df'_def update_conv')
    have 3: "wf_frame df'"
      unfolding df'_def using Cons.prems(3) len by (intro wf_update) (simp_all add: cs'_def)
    have "map2 (last_match cats) ds cs' = map2 (last_match (a # cats)) ds cs"
      using len False by (intro nth_equalityI) (auto simp: cs'_def a l_def)
    then show ?thesis
      using False row Cons.IH [OF 1 2 3]
      by (simp add: a l_def [symmetric]) (simp add: df'_def update_last)
  qed
qed

lemma categorize_object:
  assumes "wf_frame df" "map_of df ''Details'' = Some (ObjectCol ds)"
  shows "categorize_transactions cats df =
    Inr (assign df ''Category'' (ObjectCol (map (\<lambda>d. last_match cats d ''Uncategorized'') ds)))"
proof -
  define df0 where "df0 = assign df ''Category'' (ObjectCol (replicate (nrows df) ''Uncategorized''))"
  have len: "length ds = nrows df" using wf_col_len [OF assms] by simp
  have 1: "map_of df0 ''Details'' = Some (ObjectCol ds)"
    using assms(2) by (simp add: df0_def assign_def update_conv')
  have 2: "map_of df0 ''Category'' = Some (ObjectCol (replicate (nrows df) ''Uncategorized''))"
    by (simp add: df0_def assign_def update_conv')
  have 3: "wf_frame df0"
    unfolding df0_def using assms(1) by (intro wf_assign) simp_all
  have "map2 (last_match cats) ds (replicate (nrows df) ''Uncategorized'')
      = map (\<lambda>d. last_match cats d ''Uncategorized'') ds"
    using len by (intro nth_equalityI) auto
  then show ?thesis
    using category_loop_object [OF 1 2 3, of cats]
    by (simp add: categorize_transactions_def df0_def [symmetric]) (simp add: df0_def assign_def update_last)
qed

lemma row_loop_other:
  "\<nexists>ds. map_of df ''Details'' = Some (ObjectCol ds) \<Longrightarrow> row_loop l c idxs df = Inr df' \<Longrightarrow> df' = df"
  by (cases idxs; cases "map_of df ''Details''"; cases "the (map_of df ''Details'')")
     (auto simp: getcol_def)

lemma category_loop_other:
  "\<nexists>ds. map_of df ''Details'' = Some (ObjectCol ds) \<Longrightarrow> category_loop cats df = Inr df' \<Longrightarrow> df' = df"
proof (induction cats arbitrary: df)
  case Nil
  then show ?case by simp
next
  case (Cons a cats)
  obtain c kws where a: "a = (c, kws)" by (cases a)
  show ?case
  proof (cases "c = ''Uncategorized'' \<or> kws = []")
    case True
    then show ?thesis using Cons by (simp add: a)
  next
    case False
    then obtain df1 where 1: "row_loop (map (\<lambda>k. strip (lower k)) kws) c [0..<nrows df] df = Inr df1"
      and 2: "category_loop cats df1 = Inr df'"
      using Cons.prems(2) by (auto simp: a split: sum.splits)
    from row_loop_other [OF Cons.prems(1) 1] have "df1 = df" .
    with 2 Cons.IH [OF Cons.prems(1)] show ?thesis by simp
  qed
qed

lemma categorize_other:
  assumes "\<nexists>ds. map_of df ''Details'' = Some (ObjectCol ds)"
    and "categorize_transactions cats df = Inr df'"
  shows "df' = assign df ''Category'' (ObjectCol (replicate (nrows df) ''Uncategorized''))"
proof -
  have "\<nexists>ds. map_of (assign df ''Category'' (ObjectCol (replicate (nrows df) ''Uncategorized''))) ''Details''
     = Some (ObjectCol ds)"
    using assms(1) by (simp add: assign_def update_conv')
  from category_loop_other [OF this] assms(2) show ?thesis
    by (simp add: categorize_transactions_def)
qed

lemma last_match_sound:
  "last_match cats d cur = cur \<or>
   (\<exists>kws. (last_match cats d cur, kws) \<in> set cats \<and> lower d \<in> set (map (\<lambda>k. strip (lower k)) kws))"
proof (induction cats arbitrary: cur)
  case Nil
  then show ?case by simp
next
  case (Cons a cats)
  obtain c kws where a: "a = (c, kws)" by (cases a)
  show ?case
  proof (cases "c \<noteq> ''Uncategorized'' \<and> lower d \<in> set (map (\<lambda>k. strip (lower k)) kws)")
    case True
    with Cons.IH [of c] show ?thesis by (auto simp: a)
  next
    case False
    with Cons.IH [of cur] show ?thesis by (auto simp: a)
  qed
qed

lemma last_match_matching:
  "last_match cats d cur = (if matching cats d = [] then cur else fst (last (matching cats d)))"
proof (induction cats arbitrary: cur)
  case Nil
  then show ?case by (simp add: matching_def)
next
  case (Cons a cats)
  obtain c kws where a: "a = (c, kws)" by (cases a)
  show ?case
  proof (cases "c \<noteq> ''Uncategorized'' \<and> lower d \<in> set (map (\<lambda>k. strip (lower k)) kws)")
    case True
    then have "matching (a # cats) d = (c, kws) # matching cats d"
      by (simp add: matching_def a)
    then show ?thesis using True Cons.IH [of c] by (simp add: a)
  next
    case False
    then have "matching (a # cats) d = matching cats d"
      by (auto simp: matching_def a)
    then show ?thesis using False Cons.IH [of cur] by (auto simp: a)
  qed
qed

lemma uber_wf: "wf_frame uber_frame"
  by code_simp

lemma uber_run: "categorize_transactions uber_store uber_frame = Inr uber_categorized"
  by code_simp

text \<open>
  Claim C1 (categorizer soundness). For every frame pandas can hold and every category
  store, when \<open>categorize_transactions\<close> returns, the \<open>Category\<close> column has one cell for
  each row, and each cell is \<open>Uncategorized\<close> or the name of a category of the store one
  of whose keywords, lowered and trimmed, is the row's lowered and trimmed detail text.
\<close>

theorem categorize_sound:
  assumes "wf_frame df" and "categorize_transactions cats df = Inr df'"
  shows "\<exists>cs. getcol df' ''Category'' = Inr (ObjectCol cs) \<and> length cs = nrows df \<and>
     (\<forall>i<nrows df. cs ! i = ''Uncategorized'' \<or>
        (\<exists>keywords ds. (cs ! i, keywords) \<in> set cats \<and>
            getcol df' ''Details'' = Inr (ObjectCol ds) \<and>
            strip (lower (ds ! i)) \<in> set (map (\<lambda>keyword. strip (lower keyword)) keywords)))"
proof (cases "\<exists>ds. map_of df ''Details'' = Some (ObjectCol ds)")
  case True
  then obtain ds where ds: "map_of df ''Details'' = Some (ObjectCol ds)" ..
  have len: "length ds = nrows df" using wf_col_len [OF assms(1) ds] by simp
  define cs where "cs = map (\<lambda>d. last_match cats d ''Uncategorized'') ds"
  have df': "df' = assign df ''Category'' (ObjectCol cs)"
    using categorize_object [OF assms(1) ds, of cats] assms(2) by (simp add: cs_def)
  have 1: "getcol df' ''Category'' = Inr (ObjectCol cs)"
    by (simp add: df' getcol_def assign_def update_conv')
  have 2: "getcol df' ''Details'' = Inr (ObjectCol ds)"
    using ds by (simp add: df' getcol_def assign_def update_conv')
  have 3: "cs ! i = ''Uncategorized'' \<or>
        (\<exists>keywords. (cs ! i, keywords) \<in> set cats \<and>
            strip (lower (ds ! i)) \<in> set (map (\<lambda>keyword. strip (lower keyword)) keywords))"
    if "i < nrows df" for i
  proof -
    have eq: "cs ! i = last_match cats (ds ! i) ''Uncategorized''"
      using that len by (simp add: cs_def)
    from last_match_sound [of cats "ds ! i" "''Uncategorized''"]
    show ?thesis
    proof
      assume "last_match cats (ds ! i) ''Uncategorized'' = ''Uncategorized''"
      then show ?thesis by (simp add: eq)
    next
      assume "\<exists>kws. (last_match cats (ds ! i) ''Uncategorized'', kws) \<in> set cats \<and>
        lower (ds ! i) \<in> set (map (\<lambda>k. strip (lower k)) kws)"
      then obtain kws where kws: "(cs ! i, kws) \<in> set cats"
        "lower (ds ! i) \<in> set (map (\<lambda>k. strip (lower k)) kws)"
        unfolding eq by blast
      from strip_lowered [OF kws(2)] kws show ?thesis by metis
    qed
  qed
  have "length cs = nrows df" using len by (simp add: cs_def)
  with 1 2 3 show ?thesis by blast
next
  case False
  define cs where "cs = replicate (nrows df) ''Uncategorized''"
  have df': "df' = assign df ''Category'' (ObjectCol cs)"
    using categorize_other [OF _ assms(2)] False by (simp add: cs_def)
  have "getcol df' ''Category'' = Inr (ObjectCol cs)"
    by (simp add: df' getcol_def assign_def update_conv')
  then show ?thesis by (auto simp: cs_def)
qed

text \<open>The theorem of claim C1 at the store and the frame of the example.\<close>

theorem categorize_sound_witness:
  "wf_frame uber_frame \<and> categorize_transactions uber_store uber_frame = Inr uber_categorized \<and>
   (\<exists>cs. getcol uber_categorized ''Category'' = Inr (ObjectCol cs) \<and> length cs = nrows uber_frame \<and>
     (\<forall>i<nrows uber_frame. cs ! i = ''Uncategorized'' \<or>
        (\<exists>keywords ds. (cs ! i, keywords) \<in> set uber_store \<and>
            getcol uber_categorized ''Details'' = Inr (ObjectCol ds) \<and>
            strip (lower (ds ! i)) \<in> set (map (\<lambda>keyword. strip (lower keyword)) keywords))))"
  using categorize_sound [OF uber_wf uber_run] uber_wf uber_run by simp

text \<open>
  Claim C2 as it is stated (the first matching category wins) fails: the text
  \<open>UBER\<close> matches \<open>Food\<close> and then \<open>Transport\<close>, and the row ends in \<open>Transport\<close>.
\<close>

theorem first_match_counterexample:
  "map fst (matching uber_store ''UBER'') = [''Food'', ''Transport''] \<and>
   categorize_transactions uber_store uber_frame = Inr uber_categorized \<and>
   getcol uber_categorized ''Category'' = Inr (ObjectCol [''Transport'', ''Uncategorized''])"
  by code_simp

text \<open>
  Claim C2, amended (categorizer tie-break). For every row whose lowered detail text
  matches keywords of one or more categories other than \<open>Uncategorized\<close>, the row is
  assigned to the last matching category in the store's iteration order: every later
  match overwrites an earlier one.
\<close>

theorem categorize_last_match_wins:
  assumes "wf_frame df" and "categorize_transactions cats df = Inr df'"
    and "getcol df ''Details'' = Inr (ObjectCol ds)" and "i < nrows df"
    and "matching cats (ds ! i) \<noteq> []"
  shows "\<exists>cs. getcol df' ''Category'' = Inr (ObjectCol cs) \<and>
    cs ! i = fst (last (matching cats (ds ! i)))"
proof -
  have ds: "map_of df ''Details'' = Some (ObjectCol ds)"
    using assms(3) by (auto simp: getcol_def split: option.splits)
  have len: "length ds = nrows df" using wf_col_len [OF assms(1) ds] by simp
  define cs where "cs = map (\<lambda>d. last_match cats d ''Uncategorized'') ds"
  have df': "df' = assign df ''Category'' (ObjectCol cs)"
    using categorize_object [OF assms(1) ds, of cats] assms(2) by (simp add: cs_def)
  have 1: "getcol df' ''Category'' = Inr (ObjectCol cs)"
    by (simp add: df' getcol_def assign_def update_conv')
  have "cs ! i = fst (last (matching cats (ds ! i)))"
    using assms(4,5) len by (simp add: cs_def last_match_matching)
  with 1 show ?thesis by blast
qed

text \<open>The theorem of claim C2 at the row that matches two categories.\<close>

theorem categorize_last_match_wins_witness:
  "wf_frame uber_frame \<and> categorize_transactions uber_store uber_frame = Inr uber_categorized \<and>
   getcol uber_frame ''Details'' = Inr (ObjectCol [''UBER'', ''Salary'']) \<and> 0 < nrows uber_frame \<and>
   matching uber_store ([''UBER'', ''Salary''] ! 0) \<noteq> [] \<and>
   (\<exists>cs. getcol uber_categorized ''Category'' = Inr (ObjectCol cs) \<and>
      cs ! 0 = fst (last (matching uber_store ([''UBER'', ''Salary''] ! 0))))"
proof -
  have 3: "getcol uber_frame ''Details'' = Inr (ObjectCol [''UBER'', ''Salary''])"
    by code_simp
  have 4: "0 < nrows uber_frame" by code_simp
  have 5: "matching uber_store ([''UBER'', ''Salary''] ! 0) \<noteq> []" by code_simp
  from categorize_last_match_wins [OF uber_wf uber_run 3 4 5] uber_wf uber_run 3 4 5
  show ?thesis by simp
qed

text \<open>
  Claim C8 (categorizer idempotence). For every frame pandas can hold and every fixed
  category store, running \<open>categorize_transactions\<close> on the frame a first run returned
  returns that same frame: every row keeps the category of the first run.
\<close>

theorem categorize_idempotent:
  assumes "wf_frame df" and "categorize_transactions cats df = Inr df'"
  shows "categorize_transactions cats df' = Inr df'"
proof (cases "\<exists>ds. map_of df ''Details'' = Some (ObjectCol ds)")
  case True
  then obtain ds where ds: "map_of df ''Details'' = Some (ObjectCol ds)" ..
  have len: "length ds = nrows df" using wf_col_len [OF assms(1) ds] by simp
  define cs where "cs = map (\<lambda>d. last_match cats d ''Uncategorized'') ds"
  have df': "df' = assign df ''Category'' (ObjectCol cs)"
    using categorize_object [OF assms(1) ds, of cats] assms(2) by (simp add: cs_def)
  have wf: "wf_frame df'"
    unfolding df' using assms(1) len by (intro wf_assign) (simp_all add: cs_def)
  have ds': "map_of df' ''Details'' = Some (ObjectCol ds)"
    using ds by (simp add: df' assign_def update_conv')
  show ?thesis
    using categorize_object [OF wf ds', of cats]
    by (simp add: cs_def [symmetric]) (simp add: df' assign_def update_last)
next
  case False
  define cs where "cs = replicate (nrows df) ''Uncategorized''"
  have df': "df' = assign df ''Category'' (ObjectCol cs)"
    using categorize_other [OF _ assms(2)] False by (simp add: cs_def)
  have n: "nrows df' = nrows df"
    unfolding df' using assms(1) by (intro nrows_assign) (simp_all add: cs_def)
  have "assign df' ''Category'' (ObjectCol (replicate (nrows df') ''Uncategorized'')) = df'"
    by (simp add: n) (simp add: df' cs_def assign_def update_last)
  then show ?thesis
    using assms(2) by (simp add: categorize_transactions_def [of _ df']) (simp add: categorize_transactions_def df' cs_def)
qed

text \<open>The theorem of claim C8 at the store and the frame of the example.\<close>

theorem categorize_idempotent_witness:
  "wf_frame uber_frame \<and> categorize_transactions uber_store uber_frame = Inr uber_categorized \<and>
   categorize_transactions uber_store uber_categorized = Inr uber_categorized"
  using categorize_idempotent [OF uber_wf uber_run] uber_wf uber_run by simp

section \<open>Adding a keyword\<close>

text \<open>
  Claim C3 as it is stated fails for an unknown category: with a keyword that is not
  empty the lookup raises \<open>KeyError\<close>, and no result is returned.
\<close>

theorem add_keyword_unknown_category_raises:
  "map_of (categories init_state) ''Food'' = None \<and>
   add_keyword_to_category ''Food'' ''coffee'' init_state = (init_state, Inl KeyError)"
  by (simp add: add_keyword_to_category_def init_state_def strip_def lstrip_def rstrip_def isspace_def)

text \<open>
  Claim C3, amended (the contract of \<open>add_keyword_to_category\<close>). The keyword is
  trimmed first. The call leaves the state as it is and returns \<open>False\<close> when the trimmed
  keyword is empty, whatever the category, and when the category is known and its list
  holds the trimmed keyword; it leaves the state as it is and raises \<open>KeyError\<close> when the
  category is unknown and the trimmed keyword is not empty. Otherwise it appends the
  trimmed keyword to that category's list, leaves every other category, the order of
  the categories and the budgets alone, writes the category document, and returns
  \<open>True\<close>.
\<close>

theorem add_keyword_contract:
  "(strip keyword = [] \<longrightarrow> add_keyword_to_category category keyword s = (s, Inr False)) \<and>
   (strip keyword \<noteq> [] \<and> map_of (categories s) category = None \<longrightarrow>
      add_keyword_to_category category keyword s = (s, Inl KeyError)) \<and>
   (\<forall>keywords. map_of (categories s) category = Some keywords \<and> strip keyword \<in> set keywords \<longrightarrow>
      add_keyword_to_category category keyword s = (s, Inr False)) \<and>
   (\<forall>keywords. map_of (categories s) category = Some keywords \<and> strip keyword \<noteq> [] \<and>
        strip keyword \<notin> set keywords \<longrightarrow>
      (\<exists>s'. add_keyword_to_category category keyword s = (s', Inr True) \<and>
         map_of (categories s') category = Some (keywords @ [strip keyword]) \<and>
         (\<forall>c. c \<noteq> category \<longrightarrow> map_of (categories s') c = map_of (categories s) c) \<and>
         map fst (categories s') = map fst (categories s) \<and>
         category_file s' = Some (categories s') \<and>
         budgets s' = budgets s \<and> budget_file s' = budget_file s))"
proof -
  have 4: "map fst (AList.update category v (categories s)) = map fst (categories s)"
    if "map_of (categories s) category = Some kws" for kws v
    using that by (intro update_keys_present) (auto dest: map_of_SomeD intro: rev_image_eqI)
  show ?thesis
    by (auto simp: add_keyword_to_category_def save_categories_def Let_def update_conv' 4)
qed

text \<open>The theorem of claim C3 at a keyword with blanks around it, learned for \<open>Food\<close>.\<close>

theorem add_keyword_contract_witness:
  "strip '' Coffee Shop '' \<noteq> [] \<and> strip '' Coffee Shop '' \<notin> set [] \<and>
   map_of (categories (fst (add_category ''Food'' init_state))) ''Food'' = Some [] \<and>
   add_keyword_to_category ''Food'' '' Coffee Shop '' (fst (add_category ''Food'' init_state)) =
     (\<lparr>categories = [(''Uncategorized'', []), (''Food'', [''Coffee Shop''])],
       budgets = [(''Food'', 0)],
       category_file = Some [(''Uncategorized'', []), (''Food'', [''Coffee Shop''])],
       budget_file = Some [(''Food'', 0)]\<rparr>, Inr True)"
proof -
  have h: "map_of (categories (fst (add_category ''Food'' init_state))) ''Food'' = Some [] \<and>
    strip '' Coffee Shop '' \<noteq> [] \<and> strip '' Coffee Shop '' \<notin> set []"
    by code_simp
  have "\<exists>s'. add_keyword_to_category ''Food'' '' Coffee Shop '' (fst (add_category ''Food'' init_state)) = (s', Inr True)"
    using add_keyword_contract [where keyword = "'' Coffee Shop ''" and category = "''Food''"
        and s = "fst (add_category ''Food'' init_state)"] h
    by blast
  moreover have "add_keyword_to_category ''Food'' '' Coffee Shop '' (fst (add_category ''Food'' init_state)) =
     (\<lparr>categories = [(''Uncategorized'', []), (''Food'', [''Coffee Shop''])],
       budgets = [(''Food'', 0)],
       category_file = Some [(''Uncategorized'', []), (''Food'', [''Coffee Shop''])],
       budget_file = Some [(''Food'', 0)]\<rparr>, Inr True)"
    by code_simp
  ultimately show ?thesis using h by simp
qed

section \<open>The aggregator\<close>

lemma py_round_100: "py_round 100 1 = 100"
  by (simp add: py_round_def round_half_even_def)

lemma percent_used_cases:
  "(budget = 0 \<longrightarrow> percent_used amount budget = 0) \<and>
   (0 < budget \<longrightarrow> percent_used amount budget = py_round (amount / budget * 100) 1 \<and>
      percent_used amount budget = py_round (100 * amount / budget) 1) \<and>
   (0 < budget \<and> amount = budget \<longrightarrow> percent_used amount budget = 100)"
  by (auto simp: percent_used_def py_round_100 mult.commute simp del: One_nat_def)

lemma totals_run:
  "category_totals [(''Food'', 7.7), (''Rent'', 900)] debits_example =
     Inr [(''Category'', ObjectCol [''Transport'', ''Food'']), (''Amount'', FloatCol [12, 7.7]),
          (''Budget'', FloatCol [0, 7.7]), (''Remaining'', FloatCol [- 12, 0]),
          (''% Used'', FloatCol [0, 100])]"
  by code_simp

text \<open>
  Claim C4 (the \<open>% Used\<close> formula). In every row of the category totals, \<open>% Used\<close> is
  \<open>0\<close> when the row's budget is \<open>0\<close>; when the budget is positive it is
  \<open>round(amount / budget * 100, 1)\<close>, as the program computes it, which is
  \<open>round(100 * amount / budget, 1)\<close>; in a row whose amount is its positive budget it is
  \<open>100\<close>. Amounts are real numbers here, so the quotient and the product are exact.
\<close>

theorem percent_used_formula:
  assumes "category_totals bs debits_df = Inr totals"
  shows "\<exists>amount budget used.
     getcol totals ''Amount'' = Inr (FloatCol amount) \<and>
     getcol totals ''Budget'' = Inr (FloatCol budget) \<and>
     getcol totals ''% Used'' = Inr (FloatCol used) \<and>
     length amount = nrows totals \<and> length budget = nrows totals \<and> length used = nrows totals \<and>
     (\<forall>i<nrows totals.
        (budget ! i = 0 \<longrightarrow> used ! i = 0) \<and>
        (0 < budget ! i \<longrightarrow> used ! i = py_round (amount ! i / budget ! i * 100) 1 \<and>
           used ! i = py_round (100 * amount ! i / budget ! i) 1) \<and>
        (0 < budget ! i \<and> amount ! i = budget ! i \<longrightarrow> used ! i = 100))"
proof -
  from assms obtain rows where rows: "grouped_totals debits_df = Inr rows"
    by (auto simp: category_totals_def split: sum.splits)
  define amount where "amount = map snd rows"
  define budget where "budget = map (\<lambda>(c, a). get_or bs c 0) rows"
  define used where "used = map2 percent_used amount budget"
  have totals: "totals = [(''Category'', ObjectCol (map fst rows)), (''Amount'', FloatCol amount),
      (''Budget'', FloatCol budget), (''Remaining'', FloatCol (map2 (\<lambda>b a. b - a) budget amount)),
      (''% Used'', FloatCol used)]"
    using assms rows by (simp add: category_totals_def Let_def amount_def budget_def used_def)
  have n: "nrows totals = length rows" by (simp add: totals nrows_def)
  have len: "length amount = length rows" "length budget = length rows" "length used = length rows"
    by (simp_all add: amount_def budget_def used_def)
  have cols: "getcol totals ''Amount'' = Inr (FloatCol amount)"
    "getcol totals ''Budget'' = Inr (FloatCol budget)"
    "getcol totals ''% Used'' = Inr (FloatCol used)"
    by (simp_all add: totals getcol_def)
  have "used ! i = percent_used (amount ! i) (budget ! i)" if "i < length rows" for i
    using that len by (simp add: used_def)
  then have "\<forall>i<nrows totals.
        (budget ! i = 0 \<longrightarrow> used ! i = 0) \<and>
        (0 < budget ! i \<longrightarrow> used ! i = py_round (amount ! i / budget ! i * 100) 1 \<and>
           used ! i = py_round (100 * amount ! i / budget ! i) 1) \<and>
        (0 < budget ! i \<and> amount ! i = budget ! i \<longrightarrow> used ! i = 100)"
    using percent_used_cases by (simp add: n py_round_100 mult.commute del: One_nat_def)
  with cols len n show ?thesis by metis
qed

text \<open>The theorem of claim C4 at three debit rows, one category spent to its budget.\<close>

theorem percent_used_formula_witness:
  "category_totals [(''Food'', 7.7), (''Rent'', 900)] debits_example =
     Inr [(''Category'', ObjectCol [''Transport'', ''Food'']), (''Amount'', FloatCol [12, 7.7]),
          (''Budget'', FloatCol [0, 7.7]), (''Remaining'', FloatCol [- 12, 0]),
          (''% Used'', FloatCol [0, 100])] \<and>
   (\<exists>amount budget used.
     getcol [(''Category'', ObjectCol [''Transport'', ''Food'']), (''Amount'', FloatCol [12, 7.7]),
          (''Budget'', FloatCol [0, 7.7]), (''Remaining'', FloatCol [- 12, 0]),
          (''% Used'', FloatCol [0, 100])] ''% Used'' = Inr (FloatCol used) \<and>
     used = [0, 100])"
  using percent_used_formula [OF totals_run] totals_run by (simp add: getcol_def)

lemma sum_list_insort_key:
  fixes g :: "'a \<Rightarrow> real"
  shows "sum_list (map g (insort_key f x xs)) = g x + sum_list (map g xs)"
  by (induction xs) auto

lemma sum_list_sort_key:
  fixes g :: "'a \<Rightarrow> real"
  shows "sum_list (map g (sort_key f xs)) = sum_list (map g xs)"
  by (induction xs) (auto simp: sum_list_insort_key)

lemma sum_groups:
  fixes zs :: "(string \<times> real) list" and g :: "string \<times> real \<Rightarrow> 'b::comm_monoid_add"
  assumes "finite K" "fst ` set zs \<subseteq> K"
  shows "(\<Sum>k\<in>K. sum_list (map g (filter (\<lambda>(c, a). c = k) zs))) = sum_list (map g zs)"
  using assms(2)
proof (induction zs)
  case Nil
  then show ?case by simp
next
  case (Cons z zs)
  obtain c a where z: "z = (c, a)" by (cases z)
  have c: "c \<in> K" using Cons.prems by (auto simp: z)
  have "(\<Sum>k\<in>K. sum_list (map g (filter (\<lambda>(c, a). c = k) (z # zs))))
      = (\<Sum>k\<in>K. (if c = k then g z else 0) + sum_list (map g (filter (\<lambda>(c, a). c = k) zs)))"
    by (intro sum.cong) (auto simp: z)
  also have "\<dots> = (\<Sum>k\<in>K. if c = k then g z else 0)
      + (\<Sum>k\<in>K. sum_list (map g (filter (\<lambda>(c, a). c = k) zs)))"
    by (simp add: sum.distrib)
  also have "(\<Sum>k\<in>K. if c = k then g z else 0) = g z"
    using assms(1) c by simp
  finally show ?case using Cons by simp
qed

lemma sum_list_groups:
  fixes g :: "string \<times> real \<Rightarrow> 'b::comm_monoid_add"
  shows "sum_list (map (\<lambda>k. sum_list (map g (filter (\<lambda>(c, a). c = k) (zip cs amounts))))
      (sort (remdups cs))) = sum_list (map g (zip cs amounts))"
proof -
  let ?F = "\<lambda>k. sum_list (map g (filter (\<lambda>(c, a). c = k) (zip cs amounts)))"
  have "sum_list (map ?F (sort (remdups cs))) = (\<Sum>k\<in>set cs. ?F k)"
    using sum_list_distinct_conv_sum_set [of "sort (remdups cs)" ?F] by simp
  also have "\<dots> = sum_list (map g (zip cs amounts))"
    by (intro sum_groups) (auto dest: set_zip_leftD)
  finally show ?thesis .
qed

lemma sum_group_sum:
  assumes "length cs = length amounts"
  shows "sum_list (map snd (group_sum cs amounts)) = sum_list amounts"
proof -
  have "sum_list (map snd (group_sum cs amounts))
      = sum_list (map (\<lambda>k. sum_list (map snd (filter (\<lambda>(c, a). c = k) (zip cs amounts))))
          (sort (remdups cs)))"
    by (simp add: group_sum_def groups_def comp_def)
  also have "\<dots> = sum_list (map snd (zip cs amounts))"
    by (rule sum_list_groups)
  finally show ?thesis using assms by simp
qed

lemma count_list_indicator:
  "count_list (map snd zs) x = sum_list (map (\<lambda>(c, a). if a = x then 1 else 0) zs)"
  by (induction zs) auto

lemma count_groups:
  assumes "length cs = length amounts"
  shows "count_list (concat (map snd (groups cs amounts))) x = count_list amounts x"
proof -
  let ?g = "\<lambda>(c, a). if a = x then 1 else (0::nat)"
  have "count_list (concat (map snd (groups cs amounts))) x
      = sum_list (map (\<lambda>k. sum_list (map ?g (filter (\<lambda>(c, a). c = k) (zip cs amounts))))
          (sort (remdups cs)))"
    by (simp add: groups_def count_list_concat comp_def count_list_indicator)
  also have "\<dots> = sum_list (map ?g (zip cs amounts))"
    by (rule sum_list_groups)
  also have "\<dots> = count_list (map snd (zip cs amounts)) x"
    by (simp add: count_list_indicator)
  finally show ?thesis using assms by simp
qed

lemma debits_wf: "wf_frame debits_example"
  by code_simp

lemma debits_category:
  "getcol debits_example ''Category'' = Inr (ObjectCol [''Food'', ''Transport'', ''Food''])"
  by code_simp

lemma debits_amount: "getcol debits_example ''Amount'' = Inr (FloatCol [4.5, 12, 3.2])"
  by code_simp

lemma debits_grouped: "grouped_totals debits_example = Inr [(''Transport'', 12), (''Food'', 7.7)]"
  by code_simp

text \<open>
  Claim C5 (aggregation conserves the amounts). For every frame of debit rows with a
  category and an amount in each row, the grouping returns, the amounts of the grouped
  and sorted totals add up to the sum of the rows' amounts, and the \<open>Amount\<close> column of
  the category totals holds exactly those group sums. No row is dropped or counted
  twice: the totals are the sums of groups with distinct names, and every amount
  occurs in the groups as often as in the rows. Amounts are real numbers here, so the
  sums are exact.
\<close>

theorem aggregation_conserves_amounts:
  assumes "wf_frame debits_df"
    and "getcol debits_df ''Category'' = Inr (ObjectCol cs)"
    and "getcol debits_df ''Amount'' = Inr (FloatCol amounts)"
  shows "\<exists>rows totals. grouped_totals debits_df = Inr rows \<and>
    sum_list (map snd rows) = sum_list amounts \<and>
    category_totals bs debits_df = Inr totals \<and>
    getcol totals ''Amount'' = Inr (FloatCol (map snd rows)) \<and>
    rows = sort_descending (map (\<lambda>(k, xs). (k, sum_list xs)) (groups cs amounts)) \<and>
    distinct (map fst (groups cs amounts)) \<and>
    (\<forall>x. count_list (concat (map snd (groups cs amounts))) x = count_list amounts x)"
proof -
  define rows where "rows = sort_descending (group_sum cs amounts)"
  have rows: "grouped_totals debits_df = Inr rows"
    using assms(2,3) by (simp add: grouped_totals_def rows_def)
  have m: "map_of debits_df ''Category'' = Some (ObjectCol cs)"
    "map_of debits_df ''Amount'' = Some (FloatCol amounts)"
    using assms(2,3) by (auto simp: getcol_def split: option.splits)
  have len: "length cs = length amounts"
    using wf_col_len [OF assms(1) m(1)] wf_col_len [OF assms(1) m(2)] by simp
  then have 1: "sum_list (map snd rows) = sum_list amounts"
    by (simp add: rows_def sort_descending_def sum_list_sort_key sum_group_sum)
  obtain totals where 2: "category_totals bs debits_df = Inr totals"
    "getcol totals ''Amount'' = Inr (FloatCol (map snd rows))"
    using rows by (simp add: category_totals_def Let_def getcol_def)
  have 3: "rows = sort_descending (map (\<lambda>(k, xs). (k, sum_list xs)) (groups cs amounts))"
    by (simp add: rows_def group_sum_def)
  have 4: "distinct (map fst (groups cs amounts))"
    by (simp add: groups_def comp_def)
  have 5: "\<forall>x. count_list (concat (map snd (groups cs amounts))) x = count_list amounts x"
    using count_groups [OF len] by simp
  from rows 1 2 3 4 5 show ?thesis by blast
qed

text \<open>The theorem of claim C5 at three debit rows in two categories.\<close>

theorem aggregation_conserves_amounts_witness:
  "wf_frame debits_example \<and>
   getcol debits_example ''Category'' = Inr (ObjectCol [''Food'', ''Transport'', ''Food'']) \<and>
   getcol debits_example ''Amount'' = Inr (FloatCol [4.5, 12, 3.2]) \<and>
   grouped_totals debits_example = Inr [(''Transport'', 12), (''Food'', 7.7)] \<and>
   (\<exists>rows totals. grouped_totals debits_example = Inr rows \<and>
      sum_list (map snd rows) = sum_list [4.5, 12, 3.2] \<and>
      category_totals [] debits_example = Inr totals \<and>
      getcol totals ''Amount'' = Inr (FloatCol (map snd rows)))"
proof -
  from aggregation_conserves_amounts [OF debits_wf debits_category debits_amount, of "[]"]
  have "\<exists>rows totals. grouped_totals debits_example = Inr rows \<and>
      sum_list (map snd rows) = sum_list [4.5, 12, 3.2] \<and>
      category_totals [] debits_example = Inr totals \<and>
      getcol totals ''Amount'' = Inr (FloatCol (map snd rows))"
    by blast
  with debits_wf debits_category debits_amount debits_grouped show ?thesis by blast
qed

section \<open>Adding a category\<close>

text \<open>
  Claim C6 as it is stated fails in three places: an empty name is not added; a name
  that the budget store already holds keeps its amount (\<open>setdefault\<close>), here \<open>50\<close> read
  from the budget document; and backup.py, which has no budget store, writes no budget.
\<close>

theorem add_category_setdefault_counterexample:
  "add_category [] init_state = (init_state, False) \<and>
   map_of (budgets (fst (add_category ''Food''
      (startup (init_state\<lparr>budget_file := Some [(''Food'', 50)]\<rparr>))))) ''Food'' = Some 50 \<and>
   ''Food'' \<notin> set (map fst (categories (startup (init_state\<lparr>budget_file := Some [(''Food'', 50)]\<rparr>)))) \<and>
   budgets (fst (add_category_backup ''Food'' init_state)) = [] \<and>
   budget_file (fst (add_category_backup ''Food'' init_state)) = None"
  by code_simp

text \<open>
  Claim C6, amended (the contract of adding a category). Adding a name that exists, or
  the empty name, changes nothing. Adding a fresh name that is not empty puts it last
  in the store with an empty keyword list, gives it the budget \<open>0\<close> unless the budget
  store already has an amount for it, which is kept, changes no other budget, writes
  both documents, and asks for a rerun. Adding the same name twice leaves the state as
  the first call left it. backup.py, which has no budget store, adds the fresh name
  with an empty keyword list and writes the category document only.
\<close>

theorem add_category_contract:
  "(name \<in> set (map fst (categories s)) \<or> name = [] \<longrightarrow>
      add_category name s = (s, False)) \<and>
   (name \<noteq> [] \<and> name \<notin> set (map fst (categories s)) \<longrightarrow>
      (\<exists>s'. add_category name s = (s', True) \<and>
         categories s' = categories s @ [(name, [])] \<and>
         map_of (budgets s') name = Some (get_or (budgets s) name 0) \<and>
         (\<forall>c. c \<noteq> name \<longrightarrow> map_of (budgets s') c = map_of (budgets s) c) \<and>
         category_file s' = Some (categories s') \<and> budget_file s' = Some (budgets s'))) \<and>
   fst (add_category name (fst (add_category name s))) =
     fst (add_category name s) \<and>
   (name \<noteq> [] \<and> name \<notin> set (map fst (categories s)) \<longrightarrow>
      add_category_backup name s =
        (s\<lparr>categories := categories s @ [(name, [])],
           category_file := Some (categories s @ [(name, [])])\<rparr>, True))"
  by (auto simp: add_category_def add_category_backup_def save_categories_def save_budgets_def
      update_fresh setdefault_def get_or_def update_conv' split: option.splits)

text \<open>The theorem of claim C6 at the name \<open>Food\<close> in a new session.\<close>

theorem add_category_contract_witness:
  "''Food'' \<noteq> [] \<and> ''Food'' \<notin> set (map fst (categories init_state)) \<and>
   (\<exists>s'. add_category ''Food'' init_state = (s', True) \<and>
      categories s' = categories init_state @ [(''Food'', [])] \<and>
      map_of (budgets s') ''Food'' = Some (get_or (budgets init_state) ''Food'' 0) \<and>
      category_file s' = Some (categories s') \<and> budget_file s' = Some (budgets s')) \<and>
   fst (add_category ''Food'' (fst (add_category ''Food'' init_state))) =
     fst (add_category ''Food'' init_state)"
proof -
  have h: "''Food'' \<noteq> [] \<and> ''Food'' \<notin> set (map fst (categories init_state))"
    by (simp add: init_state_def)
  from add_category_contract [of "''Food''" init_state] h show ?thesis by blast
qed

section \<open>The keywords of Uncategorized\<close>

lemma uncategorized_empty_init: "uncategorized_empty init_state"
  by (simp add: uncategorized_empty_def init_state_def)

lemma uncategorized_empty_startup: "uncategorized_empty s \<Longrightarrow> uncategorized_empty (startup s)"
  by (auto simp: uncategorized_empty_def startup_def Let_def split: option.splits)

lemma uncategorized_empty_add_category: "uncategorized_empty s \<Longrightarrow> uncategorized_empty (fst (add_category name s))"
proof -
  assume a: "uncategorized_empty s"
  then have "''Uncategorized'' \<in> set (map fst (categories s))"
    by (auto simp: uncategorized_empty_def dest!: map_of_SomeD intro: rev_image_eqI)
  then show ?thesis using a
    by (auto simp: uncategorized_empty_def add_category_def save_budgets_def save_categories_def update_conv')
qed

lemma budget_inputs_frame:
  "categories (budget_inputs f s) = categories s \<and> category_file (budget_inputs f s) = category_file s"
proof -
  have "categories (fold (\<lambda>cat s. set_budget cat (f cat (get_or (budgets s) cat 0)) s) xs s) = categories s \<and>
     category_file (fold (\<lambda>cat s. set_budget cat (f cat (get_or (budgets s) cat 0)) s) xs s) = category_file s"
    for xs
    by (induction xs arbitrary: s) (auto simp: set_budget_def)
  then show ?thesis by (simp add: budget_inputs_def)
qed

lemma uncategorized_empty_budget_inputs: "uncategorized_empty s \<Longrightarrow> uncategorized_empty (budget_inputs f s)"
  by (simp add: uncategorized_empty_def budget_inputs_frame)

lemma uncategorized_empty_save_budgets: "uncategorized_empty s \<Longrightarrow> uncategorized_empty (save_budgets s)"
  by (simp add: uncategorized_empty_def save_budgets_def)

lemma uncategorized_empty_add_keyword:
  "uncategorized_empty s \<Longrightarrow> category \<noteq> ''Uncategorized'' \<Longrightarrow> uncategorized_empty (fst (add_keyword_to_category category keyword s))"
  by (auto simp: uncategorized_empty_def add_keyword_to_category_def save_categories_def Let_def update_conv'
      split: option.splits)

lemma uncategorized_empty_apply_changes:
  assumes "uncategorized_empty s"
    and "\<forall>j<length rows. snd (rows ! j) = ''Uncategorized'' \<longrightarrow>
      (\<exists>cs. getcol debits_df ''Category'' = Inr (ObjectCol cs) \<and> idx + j < length cs \<and>
         cs ! (idx + j) = ''Uncategorized'')"
  shows "uncategorized_empty (fst (snd (apply_changes rows idx debits_df s)))"
  using assms
proof (induction rows arbitrary: idx debits_df s)
  case Nil
  then show ?case by simp
next
  case (Cons row rows)
  obtain details new where row: "row = (details, new)" by (cases row)
  have rest: "\<forall>j<length rows. snd (rows ! j) = ''Uncategorized'' \<longrightarrow>
      (\<exists>cs. getcol debits_df ''Category'' = Inr (ObjectCol cs) \<and> Suc idx + j < length cs \<and>
         cs ! (Suc idx + j) = ''Uncategorized'')"
  proof (intro allI impI)
    fix j assume "j < length rows" "snd (rows ! j) = ''Uncategorized''"
    then show "\<exists>cs. getcol debits_df ''Category'' = Inr (ObjectCol cs) \<and> Suc idx + j < length cs \<and>
         cs ! (Suc idx + j) = ''Uncategorized''"
      using Cons.prems(2) [rule_format, of "Suc j"] by simp
  qed
  show ?case
  proof (cases "getcol debits_df ''Category''")
    case (Inl e)
    then show ?thesis using Cons.prems(1) by (simp add: row)
  next
    case (Inr c)
    show ?thesis
    proof (cases "col_len c \<le> idx")
      case True
      then show ?thesis using Inr Cons.prems(1) by (simp add: row)
    next
      case False
      show ?thesis
      proof (cases "Str new = cell_at c idx")
        case True
        then show ?thesis
          using Inr False Cons.IH [OF Cons.prems(1) rest] by (simp add: row)
      next
        case ne: False
        have new: "new \<noteq> ''Uncategorized''"
        proof
          assume "new = ''Uncategorized''"
          with Cons.prems(2) [rule_format, of 0] Inr ne show False
            by (auto simp: row)
        qed
        define debits' where "debits' = set_at debits_df idx ''Category'' new"
        have rest': "\<forall>j<length rows. snd (rows ! j) = ''Uncategorized'' \<longrightarrow>
          (\<exists>cs. getcol debits' ''Category'' = Inr (ObjectCol cs) \<and> Suc idx + j < length cs \<and>
             cs ! (Suc idx + j) = ''Uncategorized'')"
        proof (intro allI impI)
          fix j assume j: "j < length rows" "snd (rows ! j) = ''Uncategorized''"
          with rest obtain cs where cs: "getcol debits_df ''Category'' = Inr (ObjectCol cs)"
            "Suc idx + j < length cs" "cs ! (Suc idx + j) = ''Uncategorized''"
            by blast
          then have "map_of debits_df ''Category'' = Some (ObjectCol cs)"
            by (auto simp: getcol_def split: option.splits)
          then have "getcol debits' ''Category'' = Inr (ObjectCol (cs[idx := new]))"
            by (simp add: debits'_def set_at_def getcol_def update_conv')
          with cs show "\<exists>cs. getcol debits' ''Category'' = Inr (ObjectCol cs) \<and>
              Suc idx + j < length cs \<and> cs ! (Suc idx + j) = ''Uncategorized''"
            by simp
        qed
        show ?thesis
        proof (cases details)
          case (Str keyword)
          obtain s' r where ak: "add_keyword_to_category new keyword s = (s', r)"
            by (cases "add_keyword_to_category new keyword s")
          have s': "uncategorized_empty s'"
            using uncategorized_empty_add_keyword [OF Cons.prems(1) new, of keyword] by (simp add: ak)
          show ?thesis
          proof (cases r)
            case (Inl e)
            then show ?thesis
              using Inr False ne Str ak s' by (simp add: row)
          next
            case (Inr learned)
            then show ?thesis
              using \<open>getcol debits_df ''Category'' = Inr c\<close> False ne Str ak Cons.IH [OF s' rest']
              by (simp add: row debits'_def)
          qed
        next
          case (Num x)
          then show ?thesis using Inr False ne Cons.prems(1) by (simp add: row)
        next
          case (Day d)
          then show ?thesis using Inr False ne Cons.prems(1) by (simp add: row)
        qed
      qed
    qed
  qed
qed

lemma uncategorized_empty_expenses_tab:
  assumes "uncategorized_empty s" and "no_demotion u"
  shows "uncategorized_empty (fst (expenses_tab u debits_df s))"
proof -
  define s1 where "s1 = fst (if add_button u then add_category (new_category u) s else (s, False))"
  define s3 where "s3 = (if save_budgets_button u then save_budgets (budget_inputs (number_input u) s1)
     else budget_inputs (number_input u) s1)"
  have s1: "uncategorized_empty s1"
    using assms(1) by (simp add: s1_def uncategorized_empty_add_category)
  have s3: "uncategorized_empty s3"
    using s1 by (simp add: s3_def uncategorized_empty_budget_inputs uncategorized_empty_save_budgets)
  have s4: "uncategorized_empty (fst (snd (apply_changes (data_editor u grid) 0 debits_df s3)))"
    if "select_columns debits_df [''Date'', ''Details'', ''Amount'', ''Category''] = Inr grid" for grid
  proof (rule uncategorized_empty_apply_changes [OF s3], intro allI impI)
    fix j assume "j < length (data_editor u grid)" "snd (data_editor u grid ! j) = ''Uncategorized''"
    with assms(2) obtain cs where "getcol grid ''Category'' = Inr (ObjectCol cs)" "j < length cs"
      "cs ! j = ''Uncategorized''"
      unfolding no_demotion_def by blast
    moreover have "getcol grid ''Category'' = getcol debits_df ''Category''"
      using that by (rule select_columns_getcol) simp
    ultimately show "\<exists>cs. getcol debits_df ''Category'' = Inr (ObjectCol cs) \<and> 0 + j < length cs \<and>
        cs ! (0 + j) = ''Uncategorized''"
      by simp
  qed
  obtain sa rerun where a: "(if add_button u then add_category (new_category u) s else (s, False)) = (sa, rerun)"
    by (cases "if add_button u then add_category (new_category u) s else (s, False)")
  have sa: "sa = s1" by (simp add: s1_def a)
  show ?thesis
  proof (cases rerun)
    case True
    then show ?thesis using s1 by (simp add: expenses_tab_def a sa)
  next
    case no_rerun: False
    obtain shown1 where b: "(if save_budgets_button u then (save_budgets (budget_inputs (number_input u) s1), [Success])
        else (budget_inputs (number_input u) s1, [])) = (s3, shown1)"
      by (cases "save_budgets_button u") (simp_all add: s3_def)
    show ?thesis
    proof (cases "select_columns debits_df [''Date'', ''Details'', ''Amount'', ''Category'']")
      case (Inl e)
      then show ?thesis using s3 no_rerun
        by (simp add: expenses_tab_def a sa b del: select_columns.simps)
    next
      case (Inr grid)
      obtain d' s4 raised where c: "(if apply_button u then apply_changes (data_editor u grid) 0 debits_df s3
          else (debits_df, s3, None)) = (d', s4, raised)"
        by (cases "if apply_button u then apply_changes (data_editor u grid) 0 debits_df s3
          else (debits_df, s3, None)")
      have "uncategorized_empty s4"
        using s3 s4 [OF Inr] c by (auto split: if_splits)
      moreover have "fst (expenses_tab u debits_df s) = s4"
        using no_rerun Inr
        by (simp add: expenses_tab_def a sa b c Let_def del: select_columns.simps
            split: option.splits sum.splits)
      ultimately show ?thesis by simp
    qed
  qed
qed

lemma uncategorized_empty_main:
  assumes "uncategorized_empty s" and "no_demotion u"
  shows "uncategorized_empty (fst (main u s))"
proof (cases "uploaded_file u")
  case None
  then show ?thesis using assms(1) by (simp add: main_def)
next
  case (Some f)
  obtain shown loaded where l: "load_transactions (categories s) f = (shown, loaded)"
    by (cases "load_transactions (categories s) f")
  show ?thesis
  proof (cases loaded)
    case None
    then show ?thesis using assms(1) Some l by (simp add: main_def)
  next
    case df: (Some df)
    show ?thesis
    proof (cases "getcol df ''Debit/Credit''")
      case (Inl e)
      then show ?thesis using assms(1) Some l df by (simp add: main_def)
    next
      case (Inr flag)
      obtain s' shown1 r where e:
        "expenses_tab u (select_rows df (eq_mask flag ''Debit'')) s = (s', shown1, r)"
        by (cases "expenses_tab u (select_rows df (eq_mask flag ''Debit'')) s")
      have "uncategorized_empty s'"
        using uncategorized_empty_expenses_tab [OF assms, of "select_rows df (eq_mask flag ''Debit'')"]
        by (simp add: e)
      moreover have "fst (main u s) = s'"
        using Some l df Inr e
        by (simp add: main_def Let_def split: outcome.splits prod.splits)
      ultimately show ?thesis by simp
    qed
  qed
qed

lemma uncategorized_empty_script: "uncategorized_empty s \<Longrightarrow> no_demotion u \<Longrightarrow> uncategorized_empty (fst (script u s))"
  by (simp add: script_def uncategorized_empty_main uncategorized_empty_startup)

lemma reachable_inv: "reachable s \<Longrightarrow> uncategorized_empty s"
  by (induction rule: reachable.induct) (auto intro: uncategorized_empty_init uncategorized_empty_script)

lemma no_demotion_add_food: "no_demotion add_food_ui"
  by (simp add: no_demotion_def add_food_ui_def quiet_ui_def)

lemma no_demotion_move_to: "category \<noteq> ''Uncategorized'' \<Longrightarrow> no_demotion (move_to_ui category)"
  by (simp add: no_demotion_def move_to_ui_def quiet_ui_def)

lemma run_add_food:
  "fst (script add_food_ui init_state) =
     \<lparr>categories = [(''Uncategorized'', []), (''Food'', [])],
       budgets = [(''Uncategorized'', 0), (''Food'', 0)],
       category_file = Some [(''Uncategorized'', []), (''Food'', [])],
       budget_file = Some [(''Uncategorized'', 0), (''Food'', 0)]\<rparr>"
  by code_simp

lemma run_move_to_food:
  "fst (script (move_to_ui ''Food'')
     \<lparr>categories = [(''Uncategorized'', []), (''Food'', [])],
       budgets = [(''Uncategorized'', 0), (''Food'', 0)],
       category_file = Some [(''Uncategorized'', []), (''Food'', [])],
       budget_file = Some [(''Uncategorized'', 0), (''Food'', 0)]\<rparr>) =
     \<lparr>categories = [(''Uncategorized'', []), (''Food'', [''Coffee Shop''])],
       budgets = [(''Uncategorized'', 0), (''Food'', 0)],
       category_file = Some [(''Uncategorized'', []), (''Food'', [''Coffee Shop''])],
       budget_file = Some [(''Uncategorized'', 0), (''Food'', 0)]\<rparr>"
  by code_simp

lemma run_move_to_uncategorized:
  "fst (script (move_to_ui ''Uncategorized'')
     \<lparr>categories = [(''Uncategorized'', []), (''Food'', [''Coffee Shop''])],
       budgets = [(''Uncategorized'', 0), (''Food'', 0)],
       category_file = Some [(''Uncategorized'', []), (''Food'', [''Coffee Shop''])],
       budget_file = Some [(''Uncategorized'', 0), (''Food'', 0)]\<rparr>) =
     \<lparr>categories = [(''Uncategorized'', [''Coffee Shop'']), (''Food'', [''Coffee Shop''])],
       budgets = [(''Uncategorized'', 0), (''Food'', 0)],
       category_file = Some [(''Uncategorized'', [''Coffee Shop'']), (''Food'', [''Coffee Shop''])],
       budget_file = Some [(''Uncategorized'', 0), (''Food'', 0)]\<rparr>"
  by code_simp

text \<open>
  Claim C7 as it is stated fails: the selectbox of the editor offers \<open>Uncategorized\<close>,
  and Apply Changes learns a keyword for whatever category a row was moved to. Three
  runs from a new session (add \<open>Food\<close>, move the row to \<open>Food\<close>, move it back) leave
  \<open>Uncategorized\<close> with the keyword \<open>Coffee Shop\<close>.
\<close>

theorem uncategorized_learns_keyword:
  "map_of (categories (fst (script (move_to_ui ''Uncategorized'')
      (fst (script (move_to_ui ''Food'') (fst (script add_food_ui init_state)))))))
     ''Uncategorized'' = Some [''Coffee Shop'']"
  by (simp add: run_add_food run_move_to_food run_move_to_uncategorized)

text \<open>
  Claim C7, amended (\<open>Uncategorized\<close> has no keywords). Starting from a new session
  with the default store, after every sequence of runs of the script (loading the
  documents, adding categories, setting and saving budgets, applying edits) in which no
  row is moved to \<open>Uncategorized\<close> in the editor, the keyword list of \<open>Uncategorized\<close>
  is empty.
\<close>

theorem uncategorized_keeps_no_keywords:
  assumes "reachable s"
  shows "map_of (categories s) ''Uncategorized'' = Some []"
  using reachable_inv [OF assms] by (simp add: uncategorized_empty_def)

text \<open>The theorem of claim C7 after the runs that add \<open>Food\<close> and move the row to it.\<close>

theorem uncategorized_keeps_no_keywords_witness:
  "reachable (fst (script (move_to_ui ''Food'') (fst (script add_food_ui init_state)))) \<and>
   map_of (categories (fst (script (move_to_ui ''Food'') (fst (script add_food_ui init_state)))))
     ''Uncategorized'' = Some []"
proof -
  have "reachable (fst (script (move_to_ui ''Food'') (fst (script add_food_ui init_state))))"
    by (intro reachable.run reachable.start no_demotion_add_food no_demotion_move_to) simp
  then show ?thesis using uncategorized_keeps_no_keywords by blast
qed

section \<open>The loader\<close>

text \<open>
  Claim C9 (the end-to-end example). The program does not get through the example: no
  amount of the three rows has a thousands separator, so \<open>read_csv\<close> reads the \<open>Amount\<close>
  column as numbers, \<open>.str\<close> raises \<open>AttributeError\<close> on it, and the page shows the
  loader's error and nothing else.
\<close>

theorem end_to_end_example_fails:
  "script (quiet_ui\<lparr>uploaded_file := Some example_file\<rparr>) example_state =
     (example_state, [Error AttributeError], Done)"
  by code_simp

text \<open>
  With the salary written \<open>2,000.00\<close> the column stays text and the same rows give what
  the example expects: one row of totals, \<open>Food\<close> with amount \<open>7.7\<close>, budget \<open>10\<close>,
  \<open>2.3\<close> remaining and \<open>77\<close> per cent used, and payments of \<open>2000\<close>.
\<close>

lemma end_to_end_example_with_separator:
  "script (quiet_ui\<lparr>uploaded_file := Some example_file_separator\<rparr>) example_state =
     (example_state,
      [Editor [(''Date'', DateCol [(1, 1, 2024), (2, 1, 2024)]),
               (''Details'', ObjectCol [''Coffee Shop'', ''Coffee Shop'']),
               (''Amount'', FloatCol [4.5, 3.2]),
               (''Category'', ObjectCol [''Food'', ''Food''])],
       Summary [(''Category'', ObjectCol [''Food'']), (''Amount'', FloatCol [7.7]),
                (''Budget'', FloatCol [10]), (''Remaining'', FloatCol [2.3]),
                (''% Used'', FloatCol [77])],
       Pie [(''Category'', ObjectCol [''Food'']), (''Amount'', FloatCol [7.7]),
            (''Budget'', FloatCol [10]), (''Remaining'', FloatCol [2.3]),
            (''% Used'', FloatCol [77])],
       Bar [(''Category'', ObjectCol [''Food'']), (''Amount'', FloatCol [7.7]),
            (''Budget'', FloatCol [10]), (''Remaining'', FloatCol [2.3]),
            (''% Used'', FloatCol [77])],
       Metric 2000,
       Table [(''Date'', DateCol [(3, 1, 2024)]), (''Details'', ObjectCol [''Salary'']),
              (''Amount'', FloatCol [2000]), (''Debit/Credit'', ObjectCol [''Credit'']),
              (''Category'', ObjectCol [''Uncategorized''])]],
      Done)"
  by code_simp

lemma load_frame_raises:
  assumes "read_csv file = Inl e \<or>
      (\<exists>df. read_csv file = Inr df \<and>
         (coerce_amount (strip_columns df) = Inl e \<or>
          (\<exists>df1. coerce_amount (strip_columns df) = Inr df1 \<and> coerce_date df1 = Inl e)))"
  shows "load_frame cats file = Inl e"
  using assms by (auto simp: load_frame_def)

text \<open>
  Claim C10 (a failed load shows one error and nothing else). For every uploaded file
  on which \<open>read_csv\<close>, the coercion of \<open>Amount\<close> or the parsing of \<open>Date\<close> raises an
  exception, \<open>load_transactions\<close> shows exactly one error, with that exception, and
  returns no frame; \<open>main\<close> then shows nothing else (no editor, no totals, no chart, no
  payments) and leaves the state as it was.
\<close>

theorem load_failure_shows_one_error:
  assumes "uploaded_file u = Some file"
    and "read_csv file = Inl e \<or>
      (\<exists>df. read_csv file = Inr df \<and>
         (coerce_amount (strip_columns df) = Inl e \<or>
          (\<exists>df1. coerce_amount (strip_columns df) = Inr df1 \<and> coerce_date df1 = Inl e)))"
  shows "load_transactions (categories s) file = ([Error e], None) \<and>
    main u s = (s, [Error e], Done)"
proof -
  have "load_frame (categories s) file = Inl e"
    using assms(2) by (rule load_frame_raises)
  then have "load_transactions (categories s) file = ([Error e], None)"
    by (simp add: load_transactions_def)
  then show ?thesis using assms(1) by (simp add: main_def)
qed

text \<open>The theorem of claim C10 at the statement with dates in another format.\<close>

theorem load_failure_shows_one_error_witness:
  "uploaded_file (quiet_ui\<lparr>uploaded_file := Some bad_date_file\<rparr>) = Some bad_date_file \<and>
   (\<exists>df. read_csv bad_date_file = Inr df \<and>
      (\<exists>df1. coerce_amount (strip_columns df) = Inr df1 \<and> coerce_date df1 = Inl ValueError)) \<and>
   load_transactions (categories init_state) bad_date_file = ([Error ValueError], None) \<and>
   main (quiet_ui\<lparr>uploaded_file := Some bad_date_file\<rparr>) init_state = (init_state, [Error ValueError], Done)"
proof -
  have 1: "uploaded_file (quiet_ui\<lparr>uploaded_file := Some bad_date_file\<rparr>) = Some bad_date_file"
    by simp
  have a: "read_csv bad_date_file = Inr [(''Date'', ObjectCol [''2024-03-05'']),
      (''Details'', ObjectCol [''Coffee Shop'']), (''Amount'', ObjectCol [''1,250.00'']),
      (''Debit/Credit'', ObjectCol [''Debit''])]"
    by code_simp
  have b: "coerce_amount (strip_columns [(''Date'', ObjectCol [''2024-03-05'']),
      (''Details'', ObjectCol [''Coffee Shop'']), (''Amount'', ObjectCol [''1,250.00'']),
      (''Debit/Credit'', ObjectCol [''Debit''])]) = Inr [(''Date'', ObjectCol [''2024-03-05'']),
      (''Details'', ObjectCol [''Coffee Shop'']), (''Amount'', FloatCol [1250]),
      (''Debit/Credit'', ObjectCol [''Debit''])]"
    by code_simp
  have c: "coerce_date [(''Date'', ObjectCol [''2024-03-05'']),
      (''Details'', ObjectCol [''Coffee Shop'']), (''Amount'', FloatCol [1250]),
      (''Debit/Credit'', ObjectCol [''Debit''])] = Inl ValueError"
    by code_simp
  have 2: "\<exists>df. read_csv bad_date_file = Inr df \<and>
      (\<exists>df1. coerce_amount (strip_columns df) = Inr df1 \<and> coerce_date df1 = Inl ValueError)"
    using a b c by blast
  then have 3: "read_csv bad_date_file = Inl ValueError \<or>
      (\<exists>df. read_csv bad_date_file = Inr df \<and>
         (coerce_amount (strip_columns df) = Inl ValueError \<or>
          (\<exists>df1. coerce_amount (strip_columns df) = Inr df1 \<and> coerce_date df1 = Inl ValueError)))"
    by blast
  from load_failure_shows_one_error [OF 1 3, of init_state] 1 2 show ?thesis by blast
qed

end
